theory Spec2Isabelle
  imports Complex_Main "HOL-Library.Log_Nat"
begin

section \<open>Python floats\<close>

text \<open>
  \<^verbatim>\<open>tile_width_meters\<close> and the coefficients of the affine transform are Python floats
  (IEEE 754 binary64).  A float is a finite rational, an infinity or NaN; the sign of a
  zero is not kept, since nothing in \<^verbatim>\<open>split_image\<close> can tell \<^verbatim>\<open>-0.0\<close> from
  \<^verbatim>\<open>0.0\<close>.  The division \<^verbatim>\<open>/\<close> rounds the exact quotient to the nearest binary64
  value, ties to even: 53 bits of mantissa, least exponent \<open>-1074\<close>, overflow to an
  infinity from \<open>2 ^ 1024\<close> on.  The finite floats are the rationals \<open>q\<close> that rounding
  leaves alone, \<open>round_double q = Fin q\<close>.
\<close>

datatype pyfloat = Fin rat | PInf | NInf | NaN

definition floor_log2 :: "rat \<Rightarrow> int" where
  "floor_log2 a =
     (let n = fst (quotient_of a); d = snd (quotient_of a); k = bitlen n - bitlen d
      in if (if 0 \<le> k then d * 2 ^ nat k \<le> n else d \<le> n * 2 ^ nat (- k)) then k else k - 1)"

definition round_half_even :: "rat \<Rightarrow> int" where
  "round_half_even x =
     (let f = \<lfloor>x\<rfloor>; r = x - of_int f
      in if r < 1 / 2 then f else if 1 / 2 < r then f + 1 else if even f then f else f + 1)"

text \<open>
  Rounding to nearest, ties to even, in a binary format with \<open>prec\<close> bits of mantissa,
  least exponent \<open>emin\<close> and overflow from \<open>2 powi emax\<close> on.
\<close>

definition round_nearest :: "nat \<Rightarrow> int \<Rightarrow> int \<Rightarrow> rat \<Rightarrow> pyfloat" where
  "round_nearest prec emin emax q =
     (if q = 0 then Fin 0
      else let a = \<bar>q\<bar>; ex = max (floor_log2 a - (int prec - 1)) emin;
               v = of_int (round_half_even (a / 2 powi ex)) * 2 powi ex
           in if 2 powi emax \<le> v then (if 0 < q then PInf else NInf) else Fin (sgn q * v))"

definition round_double :: "rat \<Rightarrow> pyfloat" where
  "round_double q = round_nearest 53 (- 1074) 1024 q"

datatype error =
    FileNotFoundError
  | ValueError_resolution
  | ValueError_ceil_nan
  | OverflowError_ceil_inf
  | ZeroDivisionError
  | OSError

text \<open>\<^verbatim>\<open>abs(x)\<close>, \<^verbatim>\<open>x == 0\<close>, \<^verbatim>\<open>x / y\<close> and \<^verbatim>\<open>math.ceil(x)\<close> on floats.\<close>

fun py_abs :: "pyfloat \<Rightarrow> pyfloat" where
  "py_abs (Fin q) = Fin \<bar>q\<bar>"
| "py_abs PInf = PInf"
| "py_abs NInf = PInf"
| "py_abs NaN = NaN"

fun is_zero :: "pyfloat \<Rightarrow> bool" where
  "is_zero (Fin q) = (q = 0)"
| "is_zero _ = False"

fun py_truediv :: "pyfloat \<Rightarrow> pyfloat \<Rightarrow> error + pyfloat" where
  "py_truediv x (Fin q) =
     (if q = 0 then Inl ZeroDivisionError
      else case x of
        Fin p \<Rightarrow> Inr (round_double (p / q))
      | PInf \<Rightarrow> Inr (if 0 < q then PInf else NInf)
      | NInf \<Rightarrow> Inr (if 0 < q then NInf else PInf)
      | NaN \<Rightarrow> Inr NaN)"
| "py_truediv (Fin p) PInf = Inr (Fin 0)"
| "py_truediv (Fin p) NInf = Inr (Fin 0)"
| "py_truediv x y = Inr NaN"

fun math_ceil :: "pyfloat \<Rightarrow> error + int" where
  "math_ceil (Fin q) = Inr \<lceil>q\<rceil>"
| "math_ceil PInf = Inl OverflowError_ceil_inf"
| "math_ceil NInf = Inl OverflowError_ceil_inf"
| "math_ceil NaN = Inl ValueError_ceil_nan"

text \<open>\<^verbatim>\<open>a // b\<close> on Python integers: floor division, raising on a zero divisor.\<close>

definition py_floordiv :: "int \<Rightarrow> int \<Rightarrow> error + int" where
  "py_floordiv a b = (if b = 0 then Inl ZeroDivisionError else Inr (a div b))"

section \<open>The raster and the arrays read from it\<close>

text \<open>
  The affine transform has the coefficients \<open>a b c d e f\<close>; \<^verbatim>\<open>transform[k]\<close> indexes
  the row-major matrix \<open>(a, b, c, d, e, f, 0, 0, 1)\<close>.
\<close>

record affine =
  coef_a :: pyfloat
  coef_b :: pyfloat
  coef_c :: pyfloat
  coef_d :: pyfloat
  coef_e :: pyfloat
  coef_f :: pyfloat

definition affine_getitem :: "affine \<Rightarrow> nat \<Rightarrow> pyfloat" where
  "affine_getitem t k =
     [coef_a t, coef_b t, coef_c t, coef_d t, coef_e t, coef_f t, Fin 0, Fin 0, Fin 1] ! k"

text \<open>
  A raster source: its size in pixels, its number of bands, its transform and its samples
  (band, row, column).  Samples are unsigned integers.
\<close>

record raster =
  width :: nat
  height :: nat
  count :: nat
  transform :: affine
  pixels :: "nat \<Rightarrow> nat \<Rightarrow> nat \<Rightarrow> nat"

datatype window = Window int int int int

text \<open>A numpy array of three (resp. two) axes: its shape and its items.\<close>

record ndarray3 =
  shape3 :: "nat \<times> nat \<times> nat"
  at3 :: "nat \<Rightarrow> nat \<Rightarrow> nat \<Rightarrow> nat"

record ndarray2 =
  shape2 :: "nat \<times> nat"
  at2 :: "nat \<Rightarrow> nat \<Rightarrow> nat"

text \<open>
  \<^verbatim>\<open>src.read(window=window)\<close>: shape (band, height, width).  The windows of a grid
  lie inside the raster whenever the tile size in pixels is positive; what the reader
  does with any other window is outside this development, and such a window is read
  the same way.
\<close>

fun src_read :: "raster \<Rightarrow> window \<Rightarrow> ndarray3" where
  "src_read src (Window x y w h) =
     \<lparr>shape3 = (count src, nat h, nat w),
      at3 = (\<lambda>b r c. pixels src b (nat y + r) (nat x + c))\<rparr>"

text \<open>\<^verbatim>\<open>np.transpose(tile_data, (1, 2, 0))\<close>\<close>

definition np_transpose_120 :: "ndarray3 \<Rightarrow> ndarray3" where
  "np_transpose_120 arr =
     (case shape3 arr of (b, h, w) \<Rightarrow>
        \<lparr>shape3 = (h, w, b), at3 = (\<lambda>r c k. at3 arr k r c)\<rparr>)"

text \<open>\<^verbatim>\<open>out_img[:, :, idx]\<close> for a list of channel indices \<open>idx\<close>\<close>

definition take_channels :: "nat list \<Rightarrow> ndarray3 \<Rightarrow> ndarray3" where
  "take_channels idx arr =
     (case shape3 arr of (h, w, b) \<Rightarrow>
        \<lparr>shape3 = (h, w, length idx), at3 = (\<lambda>r c k. at3 arr r c (idx ! k))\<rparr>)"

text \<open>\<^verbatim>\<open>out_img[:, :, k]\<close>\<close>

definition channel :: "nat \<Rightarrow> ndarray3 \<Rightarrow> ndarray2" where
  "channel k arr =
     (case shape3 arr of (h, w, b) \<Rightarrow> \<lparr>shape2 = (h, w), at2 = (\<lambda>r c. at3 arr r c k)\<rparr>)"

text \<open>\<^verbatim>\<open>np.all(alpha_channel == 0)\<close>\<close>

definition np_all_zero :: "ndarray2 \<Rightarrow> bool" where
  "np_all_zero arr =
     (case shape2 arr of (h, w) \<Rightarrow>
        list_all (\<lambda>r. list_all (\<lambda>c. at2 arr r c = 0) [0..<w]) [0..<h])"

text \<open>\<^verbatim>\<open>np.any(out_img)\<close>\<close>

definition np_any :: "ndarray3 \<Rightarrow> bool" where
  "np_any arr =
     (case shape3 arr of (h, w, b) \<Rightarrow>
        list_ex (\<lambda>r. list_ex (\<lambda>c. list_ex (\<lambda>k. at3 arr r c k \<noteq> 0) [0..<b]) [0..<w]) [0..<h])"

section \<open>Paths and file names\<close>

text \<open>\<^verbatim>\<open>str(n)\<close> for a non-negative integer\<close>

definition digit :: "nat \<Rightarrow> char" where
  "digit d = ''0123456789'' ! d"

function str_nat :: "nat \<Rightarrow> string" where
  "str_nat n = (if n < 10 then [digit n] else str_nat (n div 10) @ [digit (n mod 10)])"
  by pat_completeness auto
termination
  by (relation "measure id") auto

text \<open>\<^verbatim>\<open>os.path.join(a, b)\<close> on POSIX\<close>

definition os_path_join :: "string \<Rightarrow> string \<Rightarrow> string" where
  "os_path_join a b =
     (if b \<noteq> [] \<and> hd b = CHR ''/'' then b
      else if a = [] \<or> last a = CHR ''/'' then a @ b
      else a @ ''/'' @ b)"

text \<open>\<^verbatim>\<open>f"{project_name}_tile_{tile_number}.png"\<close>\<close>

definition tile_filename :: "string \<Rightarrow> nat \<Rightarrow> string" where
  "tile_filename project_name tile_number =
     project_name @ ''_tile_'' @ str_nat tile_number @ ''.png''"

section \<open>Effects\<close>

text \<open>
  A run is observed through the sequence of its effects: what it prints, the directory
  it creates, the opening and closing of the raster, the windows it reads and the images
  it hands to \<^verbatim>\<open>cv2.imwrite\<close>.  The raster reader and the image writer are taken
  to succeed; the exceptions of a run are the two that \<^verbatim>\<open>split_image\<close> raises
  itself, those of its own arithmetic and the one \<^verbatim>\<open>os.makedirs\<close> may raise.
\<close>

datatype message =
    Processing string pyfloat
  | WarnCreatingDir
  | Metadata nat nat nat pyfloat pyfloat pyfloat int
  | CreatingTiles int int int
  | TileEmptyAlpha nat
  | TileEmpty nat
  | TileSaved nat string
  | TileUnsupported nat nat
  | Done

datatype event =
    Print message
  | MakeDirs string
  | OpenRaster string
  | CloseRaster string
  | ReadWindow window
  | ImWrite string ndarray3

text \<open>
  What the run asks of the file system, and the raster a path opens as.
  \<^verbatim>\<open>os.makedirs(path)\<close> either creates the directory (\<open>None\<close>) or raises: for
  the empty path, or a path under a dangling symbolic link, it raises
  \<^verbatim>\<open>FileNotFoundError\<close>; \<open>OSError\<close> stands for its other failures.
\<close>

record world =
  isfile :: "string \<Rightarrow> bool"
  path_exists :: "string \<Rightarrow> bool"
  makedirs :: "string \<Rightarrow> error option"
  raster_at :: "string \<Rightarrow> raster"

section \<open>The tiler\<close>

definition tile_window :: "int \<Rightarrow> int \<Rightarrow> int \<Rightarrow> int \<Rightarrow> int \<Rightarrow> window" where
  "tile_window img_width img_height tile_width_pixels i j =
     (let x = j * tile_width_pixels;
          y = i * tile_width_pixels;
          width = min tile_width_pixels (img_width - x);
          height = min tile_width_pixels (img_height - y)
      in Window x y width height)"

text \<open>The body of the inner loop: one tile, from the current tile number to the next.\<close>

definition process_tile ::
  "raster \<Rightarrow> int \<Rightarrow> string \<Rightarrow> string \<Rightarrow> int \<Rightarrow> int \<Rightarrow> nat \<Rightarrow> event list \<times> nat" where
  "process_tile src tile_width_pixels save_path project_name i j tile_number =
     (let window = tile_window (int (width src)) (int (height src)) tile_width_pixels i j;
          tile_data = src_read src window;
          count_bands = count src
      in if count_bands = 4 then
           (let out_img = take_channels [2, 1, 0, 3] (np_transpose_120 tile_data);
                alpha_channel = channel 3 out_img
            in if np_all_zero alpha_channel then
                 ([ReadWindow window, Print (TileEmptyAlpha tile_number)], tile_number + 1)
               else
                 (let output_path = os_path_join save_path (tile_filename project_name tile_number)
                  in ([ReadWindow window, ImWrite output_path out_img,
                       Print (TileSaved tile_number output_path)], tile_number + 1)))
         else if count_bands = 3 then
           (let out_img = np_transpose_120 tile_data
            in if \<not> np_any out_img then
                 ([ReadWindow window, Print (TileEmpty tile_number)], tile_number + 1)
               else
                 (let output_path = os_path_join save_path (tile_filename project_name tile_number)
                  in ([ReadWindow window, ImWrite output_path out_img,
                       Print (TileSaved tile_number output_path)], tile_number + 1)))
         else
           ([ReadWindow window, Print (TileUnsupported tile_number count_bands)],
            tile_number + 1))"

text \<open>\<^verbatim>\<open>range(n)\<close>\<close>

definition py_range :: "int \<Rightarrow> int list" where
  "py_range n = map int [0..<nat n]"

text \<open>\<^verbatim>\<open>for j in range(w_tiles)\<close>, over the columns still to visit\<close>

fun row_loop ::
  "raster \<Rightarrow> int \<Rightarrow> string \<Rightarrow> string \<Rightarrow> int \<Rightarrow> int list \<Rightarrow> nat \<Rightarrow> event list \<times> nat" where
  "row_loop src tile_width_pixels save_path project_name i [] tile_number = ([], tile_number)"
| "row_loop src tile_width_pixels save_path project_name i (j # js) tile_number =
     (case process_tile src tile_width_pixels save_path project_name i j tile_number of
        (evs, n) \<Rightarrow>
          (case row_loop src tile_width_pixels save_path project_name i js n of
             (evs', n') \<Rightarrow> (evs @ evs', n')))"

text \<open>\<^verbatim>\<open>for i in range(h_tiles)\<close>, over the rows still to visit\<close>

fun grid_loop ::
  "raster \<Rightarrow> int \<Rightarrow> string \<Rightarrow> string \<Rightarrow> int list \<Rightarrow> int list \<Rightarrow> nat \<Rightarrow> event list \<times> nat" where
  "grid_loop src tile_width_pixels save_path project_name [] js tile_number = ([], tile_number)"
| "grid_loop src tile_width_pixels save_path project_name (i # is) js tile_number =
     (case row_loop src tile_width_pixels save_path project_name i js tile_number of
        (evs, n) \<Rightarrow>
          (case grid_loop src tile_width_pixels save_path project_name is js n of
             (evs', n') \<Rightarrow> (evs @ evs', n')))"

text \<open>\<^verbatim>\<open>math.ceil(tile_width_meters / pixel_width_meters)\<close>\<close>

definition tile_size_pixels :: "pyfloat \<Rightarrow> pyfloat \<Rightarrow> error + int" where
  "tile_size_pixels tile_width_meters pixel_width_meters =
     (case py_truediv tile_width_meters pixel_width_meters of
        Inl err \<Rightarrow> Inl err
      | Inr q \<Rightarrow> math_ceil q)"

text \<open>\<^verbatim>\<open>(img_width + tile_width_pixels - 1) // tile_width_pixels\<close>\<close>

definition num_tiles :: "int \<Rightarrow> int \<Rightarrow> error + int" where
  "num_tiles img_size tile_width_pixels =
     py_floordiv (img_size + tile_width_pixels - 1) tile_width_pixels"

text \<open>
  The body of \<^verbatim>\<open>with rasterio.open(image_path) as src\<close>: the effects, and the final
  tile number or the exception that left the block.
\<close>

definition tiling :: "raster \<Rightarrow> pyfloat \<Rightarrow> string \<Rightarrow> string \<Rightarrow> event list \<times> (error + nat)" where
  "tiling src tile_width_meters save_path project_name =
     (let img_width = int (width src);
          img_height = int (height src);
          count_bands = count src;
          pixel_width_meters = py_abs (affine_getitem (transform src) 0);
          pixel_height_meters = py_abs (affine_getitem (transform src) 4)
      in if is_zero pixel_width_meters \<or> is_zero pixel_height_meters then
           ([], Inl ValueError_resolution)
         else
           (case tile_size_pixels tile_width_meters pixel_width_meters of
              Inl err \<Rightarrow> ([], Inl err)
            | Inr tile_width_pixels \<Rightarrow>
                (let meta = [Print (Metadata (width src) (height src) count_bands
                               pixel_width_meters pixel_height_meters
                               tile_width_meters tile_width_pixels)]
                 in case num_tiles img_width tile_width_pixels of
                      Inl err \<Rightarrow> (meta, Inl err)
                    | Inr w_tiles \<Rightarrow>
                        (case num_tiles img_height tile_width_pixels of
                           Inl err \<Rightarrow> (meta, Inl err)
                         | Inr h_tiles \<Rightarrow>
                             (case grid_loop src tile_width_pixels save_path project_name
                                     (py_range h_tiles) (py_range w_tiles) 0 of
                                (evs, n) \<Rightarrow>
                                  (meta @ [Print (CreatingTiles (w_tiles * h_tiles) w_tiles h_tiles)]
                                     @ evs, Inr n))))))"

text \<open>
  \<^verbatim>\<open>if not os.path.exists(save_path): print(...); os.makedirs(save_path)\<close>: the
  effects, and the exception if \<^verbatim>\<open>os.makedirs\<close> raises one.
\<close>

definition make_save_dir :: "world \<Rightarrow> string \<Rightarrow> event list \<times> error option" where
  "make_save_dir w save_path =
     (if \<not> path_exists w save_path then
        (case makedirs w save_path of
           None \<Rightarrow> ([Print WarnCreatingDir, MakeDirs save_path], None)
         | Some err \<Rightarrow> ([Print WarnCreatingDir], Some err))
      else ([], None))"

text \<open>
  \<^verbatim>\<open>split_image(image_path, tile_width_meters, save_path, project_name)\<close>: the effects
  of the run, and the final tile number or the exception it ends with.
\<close>

definition split_image ::
  "world \<Rightarrow> string \<Rightarrow> pyfloat \<Rightarrow> string \<Rightarrow> string \<Rightarrow> event list \<times> (error + nat)" where
  "split_image w image_path tile_width_meters save_path project_name =
     (let start = [Print (Processing image_path tile_width_meters)]
      in if \<not> isfile w image_path then (start, Inl FileNotFoundError)
         else
           (case make_save_dir w save_path of
              (mk, Some err) \<Rightarrow> (start @ mk, Inl err)
            | (mk, None) \<Rightarrow>
                (case tiling (raster_at w image_path) tile_width_meters save_path project_name of
                   (evs, Inl err) \<Rightarrow>
                     (start @ mk @ [OpenRaster image_path] @ evs @ [CloseRaster image_path],
                      Inl err)
                 | (evs, Inr n) \<Rightarrow>
                     (start @ mk @ [OpenRaster image_path] @ evs
                        @ [CloseRaster image_path, Print Done], Inr n))))"

section \<open>Reading a trace\<close>

fun reads :: "event list \<Rightarrow> window list" where
  "reads [] = []"
| "reads (ReadWindow win # evs) = win # reads evs"
| "reads (_ # evs) = reads evs"

fun writes :: "event list \<Rightarrow> (string \<times> ndarray3) list" where
  "writes [] = []"
| "writes (ImWrite path img # evs) = (path, img) # writes evs"
| "writes (_ # evs) = writes evs"

fun made_dirs :: "event list \<Rightarrow> string list" where
  "made_dirs [] = []"
| "made_dirs (MakeDirs path # evs) = path # made_dirs evs"
| "made_dirs (_ # evs) = made_dirs evs"

fun opened :: "event list \<Rightarrow> string list" where
  "opened [] = []"
| "opened (OpenRaster path # evs) = path # opened evs"
| "opened (_ # evs) = opened evs"

text \<open>The tile numbers of the per-tile notices, in the order they are printed.\<close>

fun tile_numbers :: "event list \<Rightarrow> nat list" where
  "tile_numbers [] = []"
| "tile_numbers (Print (TileEmptyAlpha n) # evs) = n # tile_numbers evs"
| "tile_numbers (Print (TileEmpty n) # evs) = n # tile_numbers evs"
| "tile_numbers (Print (TileSaved n path) # evs) = n # tile_numbers evs"
| "tile_numbers (Print (TileUnsupported n b) # evs) = n # tile_numbers evs"
| "tile_numbers (_ # evs) = tile_numbers evs"

section \<open>A small world to run the tiler in\<close>

text \<open>
  A north-up raster of the given size, band count and resolution, whose two leftmost
  columns hold zero in every band and whose other samples hold the band number plus one.
  The file \<^verbatim>\<open>ortho.tif\<close> exists and opens as that raster; the directory
  \<^verbatim>\<open>tiles\<close> exists; any other directory can be created, except that of the empty
  path, for which \<^verbatim>\<open>os.makedirs\<close> raises \<^verbatim>\<open>FileNotFoundError\<close>.
\<close>

definition example_raster :: "nat \<Rightarrow> nat \<Rightarrow> nat \<Rightarrow> rat \<Rightarrow> raster" where
  "example_raster w h bands res =
     \<lparr>width = w, height = h, count = bands,
      transform = \<lparr>coef_a = Fin res, coef_b = Fin 0, coef_c = Fin 0,
                   coef_d = Fin 0, coef_e = Fin (- res), coef_f = Fin 0\<rparr>,
      pixels = (\<lambda>b r c. if c < 2 then 0 else b + 1)\<rparr>"

definition example_world :: "nat \<Rightarrow> nat \<Rightarrow> nat \<Rightarrow> rat \<Rightarrow> world" where
  "example_world w h bands res =
     \<lparr>isfile = (\<lambda>p. p = ''ortho.tif''),
      path_exists = (\<lambda>p. p = ''ortho.tif'' \<or> p = ''tiles''),
      makedirs = (\<lambda>p. if p = [] then Some FileNotFoundError else None),
      raster_at = (\<lambda>p. example_raster w h bands res)\<rparr>"

section \<open>Rounding to binary64\<close>

lemma of_int_bitlen_bounds:
  assumes "0 < n"
  shows "2 powi (bitlen n - 1) \<le> (of_int n :: rat)" and "(of_int n :: rat) < 2 powi bitlen n"
proof -
  from assms have b: "1 \<le> bitlen n"
    by (simp add: bitlen_alt_def)
  from bitlen_bounds [OF assms]
  have lo: "(2::int) ^ nat (bitlen n - 1) \<le> n" and hi: "n < 2 ^ nat (bitlen n)"
    by simp_all
  from lo have "(of_int ((2::int) ^ nat (bitlen n - 1)) :: rat) \<le> of_int n"
    by (simp only: of_int_le_iff)
  with b show "2 powi (bitlen n - 1) \<le> (of_int n :: rat)"
    by (simp add: power_int_def)
  from hi have "(of_int n :: rat) < of_int ((2::int) ^ nat (bitlen n))"
    by (simp only: of_int_less_iff)
  with b show "(of_int n :: rat) < 2 powi bitlen n"
    by (simp add: power_int_def)
qed

lemma floor_log2_test:
  fixes n d :: int
  assumes "0 < d"
  shows "(if 0 \<le> k then d * 2 ^ nat k \<le> n else d \<le> n * 2 ^ nat (- k))
         \<longleftrightarrow> 2 powi k \<le> (of_int n / of_int d :: rat)"
proof (cases "0 \<le> k")
  case True
  have "d * 2 ^ nat k \<le> n \<longleftrightarrow> (of_int (d * 2 ^ nat k) :: rat) \<le> of_int n"
    by (simp only: of_int_le_iff)
  also have "\<dots> \<longleftrightarrow> 2 powi k \<le> (of_int n / of_int d :: rat)"
    using assms True by (simp add: power_int_def pos_le_divide_eq mult.commute)
  finally show ?thesis using True by simp
next
  case False
  have "d \<le> n * 2 ^ nat (- k) \<longleftrightarrow> (of_int d :: rat) \<le> of_int (n * 2 ^ nat (- k))"
    by (simp only: of_int_le_iff)
  also have "\<dots> \<longleftrightarrow> 2 powi k \<le> (of_int n / of_int d :: rat)"
    using assms False by (simp add: power_int_def field_simps)
  finally show ?thesis using False by simp
qed

lemma floor_log2_bounds:
  assumes "0 < a"
  shows "2 powi floor_log2 a \<le> a" and "a < 2 powi (floor_log2 a + 1)"
proof -
  obtain n d where qd: "quotient_of a = (n, d)"
    by (cases "quotient_of a")
  then have d: "0 < d" and a: "a = of_int n / of_int d"
    by (simp_all add: quotient_of_denom_pos quotient_of_div)
  from assms a d have n: "0 < n"
    by (simp add: zero_less_divide_iff)
  define k where "k = bitlen n - bitlen d"
  let ?N = "of_int n :: rat" and ?D = "of_int d :: rat"
  have D0: "0 < ?D" using d by simp
  have N: "2 powi (bitlen n - 1) \<le> ?N" "?N < 2 powi bitlen n"
    using of_int_bitlen_bounds [OF n] by simp_all
  have D: "2 powi (bitlen d - 1) \<le> ?D" "?D < 2 powi bitlen d"
    using of_int_bitlen_bounds [OF d] by simp_all
  have up: "a < 2 powi (k + 1)"
  proof -
    have "?N < 2 powi bitlen n" by (rule N)
    also have "\<dots> = 2 powi (k + 1) * 2 powi (bitlen d - 1)"
      by (simp add: k_def flip: power_int_add)
    also have "\<dots> \<le> 2 powi (k + 1) * ?D"
      using D(1) by (simp add: mult_left_mono)
    finally show ?thesis
      using D0 by (simp add: a pos_divide_less_eq)
  qed
  have low: "2 powi (k - 1) < a"
  proof -
    have "2 powi (k - 1) * ?D < 2 powi (k - 1) * 2 powi bitlen d"
      using D(2) by (simp add: mult_strict_left_mono)
    also have "\<dots> = 2 powi (bitlen n - 1)"
      by (simp add: k_def flip: power_int_add)
    also have "\<dots> \<le> ?N" by (rule N)
    finally show ?thesis
      using D0 by (simp add: a pos_less_divide_eq)
  qed
  have t: "(if 0 \<le> k then d * 2 ^ nat k \<le> n else d \<le> n * 2 ^ nat (- k)) \<longleftrightarrow> 2 powi k \<le> a"
    unfolding a by (rule floor_log2_test [OF d])
  have "floor_log2 a =
      (if (if 0 \<le> k then d * 2 ^ nat k \<le> n else d \<le> n * 2 ^ nat (- k)) then k else k - 1)"
    by (simp add: floor_log2_def qd Let_def k_def)
  then have fl: "floor_log2 a = (if 2 powi k \<le> a then k else k - 1)"
    by (simp only: t)
  show "2 powi floor_log2 a \<le> a"
    using low by (simp add: fl)
  show "a < 2 powi (floor_log2 a + 1)"
    using up by (simp add: fl)
qed


lemma floor_log2_less: "0 < a \<Longrightarrow> a < 2 powi K \<Longrightarrow> floor_log2 a < K"
proof (rule ccontr)
  assume a: "0 < a" "a < 2 powi K" and "\<not> floor_log2 a < K"
  then have "(2::rat) powi K \<le> 2 powi floor_log2 a"
    by (simp add: power_int_increasing)
  also have "\<dots> \<le> a"
    using a(1) by (rule floor_log2_bounds)
  finally show False
    using a(2) by simp
qed

lemma floor_log2_ge: "0 < a \<Longrightarrow> 2 powi K \<le> a \<Longrightarrow> K \<le> floor_log2 a"
proof (rule ccontr)
  assume a: "0 < a" "2 powi K \<le> a" and "\<not> K \<le> floor_log2 a"
  then have "floor_log2 a + 1 \<le> K"
    by simp
  then have "(2::rat) powi (floor_log2 a + 1) \<le> 2 powi K"
    by (simp add: power_int_increasing)
  with floor_log2_bounds(2) [OF a(1)] a(2) show False
    by simp
qed

lemma floor_log2_eqI:
  assumes "2 powi e \<le> a" and "a < 2 powi (e + 1)"
  shows "floor_log2 a = e"
proof -
  have "(0::rat) < 2 powi e"
    by simp
  from this assms(1) have "0 < a"
    by (rule less_le_trans)
  from floor_log2_ge [OF this assms(1)] floor_log2_less [OF this assms(2)]
  show ?thesis
    by simp
qed

lemma round_half_even_small: "0 \<le> x \<Longrightarrow> x < 1 / 2 \<Longrightarrow> round_half_even x = 0"
proof -
  assume x: "0 \<le> x" "x < 1 / 2"
  then have "\<lfloor>x\<rfloor> = 0"
    by (simp add: floor_eq_iff)
  with x show ?thesis
    by (simp add: round_half_even_def)
qed

lemma round_half_even_of_int: "round_half_even (of_int k) = k"
  by (simp add: round_half_even_def)

lemma round_half_even_ge: "of_int k \<le> x \<Longrightarrow> k \<le> round_half_even x"
proof -
  assume "of_int k \<le> x"
  then have "k \<le> \<lfloor>x\<rfloor>"
    by (simp add: le_floor_iff)
  then show ?thesis
    by (simp add: round_half_even_def Let_def)
qed

lemma round_half_even_le: "x \<le> of_int k \<Longrightarrow> round_half_even x \<le> k"
proof (cases "x = of_int k")
  case True
  then show ?thesis
    by (simp add: round_half_even_of_int)
next
  case False
  assume "x \<le> of_int k"
  with False have "x < of_int k"
    by simp
  then have "\<lfloor>x\<rfloor> < k"
    by (simp add: floor_less_iff)
  then show ?thesis
    by (simp add: round_half_even_def Let_def)
qed

lemma round_nearest_pos:
  assumes "0 < a"
  shows "round_nearest prec emin emax a =
    (if (2::rat) powi emax \<le> of_int (round_half_even (a / 2 powi max (floor_log2 a - (int prec - 1)) emin))
          * 2 powi max (floor_log2 a - (int prec - 1)) emin
     then PInf
     else Fin (of_int (round_half_even (a / 2 powi max (floor_log2 a - (int prec - 1)) emin))
          * 2 powi max (floor_log2 a - (int prec - 1)) emin))"
  using assms by (simp add: round_nearest_def Let_def)

lemma round_nearest_underflow:
  assumes "0 < a" and "a < 2 powi (emin - 1)"
  shows "round_nearest prec emin emax a = Fin 0"
proof -
  from floor_log2_less [OF assms] have ex: "max (floor_log2 a - (int prec - 1)) emin = emin"
    by simp
  have "a / 2 powi emin < 2 powi (emin - 1) / 2 powi emin"
    using assms(2) by (simp add: divide_strict_right_mono)
  also have "\<dots> = 1 / 2"
    by (simp add: power_int_diff)
  finally have "round_half_even (a / 2 powi emin) = 0"
    using assms(1) by (intro round_half_even_small) simp_all
  then show ?thesis
    by (simp add: round_nearest_pos [OF assms(1)] ex not_le)
qed

lemma round_nearest_normal:
  assumes lo: "2 powi emin \<le> a" and hi: "a < 2 powi (emax - 1)"
    and fmt: "emin + int prec < emax" and prec: "0 < prec"
  shows "\<exists>v. round_nearest prec emin emax a = Fin v \<and> 2 powi emin \<le> v"
proof -
  have "(0::rat) < 2 powi emin"
    by simp
  from this lo have a: "0 < a"
    by (rule less_le_trans)
  define ex where "ex = max (floor_log2 a - (int prec - 1)) emin"
  define m where "m = round_half_even (a / 2 powi ex)"
  define v :: rat where "v = of_int m * 2 powi ex"
  have ex_lo: "emin \<le> ex" and ex_e: "floor_log2 a - (int prec - 1) \<le> ex"
    by (simp_all add: ex_def)
  have ex_hi: "ex + int prec < emax"
    using floor_log2_less [OF a hi] fmt by (simp add: ex_def)
  have p: "(0::rat) < 2 powi ex"
    by simp
  have "2 powi ex \<le> a"
  proof (cases "ex = emin")
    case True
    with lo show ?thesis by simp
  next
    case False
    with ex_lo have "ex = floor_log2 a - (int prec - 1)"
      by (simp add: ex_def max_def split: if_splits)
    with prec have "ex \<le> floor_log2 a"
      by simp
    then have "(2::rat) powi ex \<le> 2 powi floor_log2 a"
      by (simp add: power_int_increasing)
    also have "\<dots> \<le> a"
      using a by (rule floor_log2_bounds)
    finally show ?thesis .
  qed
  then have "of_int 1 \<le> a / 2 powi ex"
    using p by (simp add: pos_le_divide_eq)
  then have m1: "1 \<le> m"
    unfolding m_def by (rule round_half_even_ge)
  have "a < 2 powi (floor_log2 a + 1)"
    using a by (rule floor_log2_bounds)
  also have "\<dots> \<le> 2 powi (ex + int prec)"
    using ex_e by (simp add: power_int_increasing)
  also have "\<dots> = 2 ^ prec * 2 powi ex"
    by (simp add: power_int_add)
  finally have "a / 2 powi ex < 2 ^ prec"
    using p by (simp add: pos_divide_less_eq)
  then have "a / 2 powi ex \<le> of_int (2 ^ prec)"
    by simp
  then have m2: "m \<le> 2 ^ prec"
    unfolding m_def by (rule round_half_even_le)
  have v_lo: "2 powi emin \<le> v"
  proof -
    have "(2::rat) powi emin \<le> 2 powi ex"
      using ex_lo by (simp add: power_int_increasing)
    also have "\<dots> = of_int 1 * 2 powi ex"
      by simp
    also have "\<dots> \<le> v"
      unfolding v_def using m1 by (intro mult_right_mono) simp_all
    finally show ?thesis .
  qed
  have v_hi: "v < 2 powi emax"
  proof -
    have "of_int m \<le> (of_int (2 ^ prec) :: rat)"
      using m2 by (simp only: of_int_le_iff)
    then have "v \<le> of_int (2 ^ prec) * 2 powi ex"
      unfolding v_def by (intro mult_right_mono) simp_all
    also have "\<dots> = 2 powi (int prec + ex)"
      by (simp add: power_int_add)
    also have "\<dots> < 2 powi emax"
      using ex_hi by (simp add: power_int_strict_increasing)
    finally show ?thesis .
  qed
  have "round_nearest prec emin emax a = Fin v"
    using v_hi by (simp add: round_nearest_pos [OF a] v_def m_def ex_def)
  with v_lo show ?thesis
    by blast
qed

lemma round_double_underflow:
  assumes "0 < a" and "a < 2 powi (- 1075)"
  shows "round_double a = Fin 0"
proof -
  have "(- 1075 :: int) = - 1074 - 1"
    by simp
  with assms(2) have "a < 2 powi (- 1074 - 1)"
    by (simp only:)
  with assms(1) show ?thesis
    unfolding round_double_def by (rule round_nearest_underflow)
qed

lemma round_double_normal:
  assumes "2 powi (- 1074) \<le> a" and "a < 2 powi 1023"
  shows "\<exists>v. round_double a = Fin v \<and> 2 powi (- 1074) \<le> v"
proof -
  have "(1023 :: int) = 1024 - 1"
    by simp
  with assms(2) have hi: "a < 2 powi (1024 - 1)"
    by (simp only:)
  have fmt: "- 1074 + int 53 < 1024"
    by simp
  show ?thesis
    unfolding round_double_def using assms(1) hi fmt by (rule round_nearest_normal) simp
qed

lemma round_nearest_of_int:
  assumes k: "0 < k" "k < 2 ^ prec" and emin: "emin \<le> 0" and emax: "int prec \<le> emax"
  shows "round_nearest prec emin emax (of_int k) = Fin (of_int k)"
proof -
  let ?a = "of_int k :: rat"
  have a: "0 < ?a"
    using k(1) by simp
  define ex where "ex = max (floor_log2 ?a - (int prec - 1)) emin"
  have "?a < of_int (2 ^ prec)"
    using k(2) by (simp only: of_int_less_iff)
  then have lt: "?a < 2 powi (int prec)"
    by simp
  from floor_log2_less [OF a lt] emin have ex0: "ex \<le> 0"
    by (simp add: ex_def)
  then have pw: "(2::rat) powi ex = 1 / 2 ^ nat (- ex)"
    by (cases "ex = 0") (simp_all add: power_int_def field_simps)
  have "?a / 2 powi ex = of_int (k * 2 ^ nat (- ex))"
    by (simp add: pw)
  then have m: "round_half_even (?a / 2 powi ex) = k * 2 ^ nat (- ex)"
    by (simp only: round_half_even_of_int)
  have v: "of_int (round_half_even (?a / 2 powi ex)) * 2 powi ex = ?a"
    by (simp add: m) (simp add: pw)
  have "(2::rat) powi int prec \<le> 2 powi emax"
    using emax by (intro power_int_increasing) simp_all
  with lt have "?a < 2 powi emax"
    by (rule less_le_trans)
  then show ?thesis
    using v by (simp add: round_nearest_pos [OF a] flip: ex_def)
qed

lemma round_double_of_int:
  assumes "0 < k" and "k < 2 ^ 53"
  shows "round_double (of_int k) = Fin (of_int k)"
  unfolding round_double_def using assms by (rule round_nearest_of_int) simp_all

lemma round_double_200: "round_double 200 = Fin 200"
  using round_double_of_int [of 200] by simp

lemma round_nearest_least:
  assumes "0 < prec" and "emin < emax"
  shows "round_nearest prec emin emax (2 powi emin) = Fin (2 powi emin)"
proof -
  let ?a = "(2::rat) powi emin"
  have a: "0 < ?a"
    by simp
  have "?a < 2 powi (emin + 1)"
    by (rule power_int_strict_increasing) simp_all
  then have "floor_log2 ?a = emin"
    by (intro floor_log2_eqI) simp_all
  with assms(1) have ex: "max (floor_log2 ?a - (int prec - 1)) emin = emin"
    by simp
  have m: "round_half_even 1 = 1"
    using round_half_even_of_int [of 1] by simp
  have "?a < 2 powi emax"
    using assms(2) by (rule power_int_strict_increasing) simp
  then show ?thesis
    by (simp add: round_nearest_pos [OF a] ex m not_le)
qed

lemma round_double_least: "round_double (2 powi (- 1074)) = Fin (2 powi (- 1074))"
  unfolding round_double_def by (rule round_nearest_least) simp_all

lemma round_double_8: "round_double 8 = Fin 8"
  using round_double_of_int [of 8] by simp

lemma round_double_4: "round_double 4 = Fin 4"
  using round_double_of_int [of 4] by simp

section \<open>Ceiling division\<close>

lemma num_tiles_bounds:
  fixes W tp :: int
  assumes "1 \<le> tp"
  shows "((W + tp - 1) div tp - 1) * tp < W" and "W \<le> (W + tp - 1) div tp * tp"
proof -
  define n where "n = (W + tp - 1) div tp"
  define r where "r = (W + tp - 1) mod tp"
  have eq: "n * tp + r = W + tp - 1"
    unfolding n_def r_def by simp
  have r: "0 \<le> r" "r < tp"
    using assms by (simp_all add: r_def)
  have "(n - 1) * tp < W"
    using eq r by (simp add: algebra_simps)
  then show "((W + tp - 1) div tp - 1) * tp < W"
    by (simp only: n_def)
  have "W \<le> n * tp"
    using eq r by (simp add: algebra_simps)
  then show "W \<le> (W + tp - 1) div tp * tp"
    by (simp only: n_def)
qed

lemma ceiling_div_eq:
  fixes W tp :: int
  assumes "1 \<le> tp"
  shows "\<lceil>(of_int W :: rat) / of_int tp\<rceil> = (W + tp - 1) div tp"
proof (rule ceiling_unique)
  let ?n = "(W + tp - 1) div tp"
  have tp: "(0::rat) < of_int tp"
    using assms by simp
  have "(of_int ((?n - 1) * tp) :: rat) < of_int W"
    using num_tiles_bounds(1) [OF assms, of W] by (simp only: of_int_less_iff)
  then show "of_int ?n - 1 < (of_int W :: rat) / of_int tp"
    using tp by (simp add: pos_less_divide_eq)
  have "(of_int W :: rat) \<le> of_int (?n * tp)"
    using num_tiles_bounds(2) [OF assms, of W] by (simp only: of_int_le_iff)
  then show "(of_int W :: rat) / of_int tp \<le> of_int ?n"
    using tp by (simp add: pos_divide_le_eq)
qed

section \<open>Traces of the iteration\<close>

lemma reads_append: "reads (xs @ ys) = reads xs @ reads ys"
  by (induction xs rule: reads.induct) simp_all

lemma writes_append: "writes (xs @ ys) = writes xs @ writes ys"
  by (induction xs rule: writes.induct) simp_all

lemma made_dirs_append: "made_dirs (xs @ ys) = made_dirs xs @ made_dirs ys"
  by (induction xs rule: made_dirs.induct) simp_all

lemma opened_append: "opened (xs @ ys) = opened xs @ opened ys"
  by (induction xs rule: opened.induct) simp_all

lemma tile_numbers_append: "tile_numbers (xs @ ys) = tile_numbers xs @ tile_numbers ys"
  by (induction xs rule: tile_numbers.induct) simp_all

lemma process_tile_reads:
  "reads (fst (process_tile src tp sp pn i j n)) =
     [tile_window (int (width src)) (int (height src)) tp i j]"
  by (simp add: process_tile_def Let_def)

lemma process_tile_next: "snd (process_tile src tp sp pn i j n) = Suc n"
  by (simp add: process_tile_def Let_def)

lemma process_tile_numbers: "tile_numbers (fst (process_tile src tp sp pn i j n)) = [n]"
  by (simp add: process_tile_def Let_def)

lemma process_tile_made_dirs: "made_dirs (fst (process_tile src tp sp pn i j n)) = []"
  by (simp add: process_tile_def Let_def)

lemma process_tile_opened: "opened (fst (process_tile src tp sp pn i j n)) = []"
  by (simp add: process_tile_def Let_def)

lemma process_tile_unsupported:
  "count src \<noteq> 3 \<Longrightarrow> count src \<noteq> 4 \<Longrightarrow> writes (fst (process_tile src tp sp pn i j n)) = []"
  by (simp add: process_tile_def Let_def)

lemma row_loop_reads:
  "reads (fst (row_loop src tp sp pn i js n)) =
     map (tile_window (int (width src)) (int (height src)) tp i) js"
  by (induction js arbitrary: n) (simp_all add: case_prod_beta reads_append process_tile_reads)

lemma row_loop_next: "snd (row_loop src tp sp pn i js n) = n + length js"
  by (induction js arbitrary: n) (simp_all add: case_prod_beta process_tile_next)

lemma row_loop_numbers: "tile_numbers (fst (row_loop src tp sp pn i js n)) = [n..<n + length js]"
proof (induction js arbitrary: n)
  case Nil
  show ?case by simp
next
  case (Cons j js)
  have "tile_numbers (fst (row_loop src tp sp pn i (j # js) n)) =
      tile_numbers (fst (process_tile src tp sp pn i j n)) @
      tile_numbers (fst (row_loop src tp sp pn i js (snd (process_tile src tp sp pn i j n))))"
    by (simp add: case_prod_beta tile_numbers_append)
  also have "\<dots> = [n] @ [Suc n..<Suc n + length js]"
    by (simp only: process_tile_numbers process_tile_next Cons)
  also have "\<dots> = [n..<n + length (j # js)]"
    by (simp add: upt_rec [of n] del: upt_Suc)
  finally show ?case .
qed

lemma row_loop_unsupported:
  "count src \<noteq> 3 \<Longrightarrow> count src \<noteq> 4 \<Longrightarrow> writes (fst (row_loop src tp sp pn i js n)) = []"
  by (induction js arbitrary: n) (simp_all add: case_prod_beta writes_append process_tile_unsupported)

lemma row_loop_made_dirs: "made_dirs (fst (row_loop src tp sp pn i js n)) = []"
  by (induction js arbitrary: n) (simp_all add: case_prod_beta made_dirs_append process_tile_made_dirs)

lemma row_loop_opened: "opened (fst (row_loop src tp sp pn i js n)) = []"
  by (induction js arbitrary: n) (simp_all add: case_prod_beta opened_append process_tile_opened)

lemma grid_loop_reads:
  "reads (fst (grid_loop src tp sp pn is js n)) =
     concat (map (\<lambda>i. map (tile_window (int (width src)) (int (height src)) tp i) js) is)"
  by (induction "is" arbitrary: n) (simp_all add: case_prod_beta reads_append row_loop_reads)

lemma grid_loop_next: "snd (grid_loop src tp sp pn is js n) = n + length is * length js"
  by (induction "is" arbitrary: n) (simp_all add: case_prod_beta row_loop_next)

lemma grid_loop_numbers:
  "tile_numbers (fst (grid_loop src tp sp pn is js n)) = [n..<n + length is * length js]"
proof (induction "is" arbitrary: n)
  case Nil
  show ?case by simp
next
  case (Cons i "is")
  have "[n..<n + (length js + length is * length js)] =
      [n..<n + length js] @ [n + length js..<n + length js + length is * length js]"
    using upt_add_eq_append [of n "n + length js" "length is * length js"]
    by (simp add: add.assoc)
  then show ?case
    by (simp add: case_prod_beta tile_numbers_append row_loop_numbers row_loop_next Cons)
qed

lemma grid_loop_unsupported:
  "count src \<noteq> 3 \<Longrightarrow> count src \<noteq> 4 \<Longrightarrow> writes (fst (grid_loop src tp sp pn is js n)) = []"
  by (induction "is" arbitrary: n) (simp_all add: case_prod_beta writes_append row_loop_unsupported)

lemma grid_loop_made_dirs: "made_dirs (fst (grid_loop src tp sp pn is js n)) = []"
  by (induction "is" arbitrary: n) (simp_all add: case_prod_beta made_dirs_append row_loop_made_dirs)

lemma grid_loop_opened: "opened (fst (grid_loop src tp sp pn is js n)) = []"
  by (induction "is" arbitrary: n) (simp_all add: case_prod_beta opened_append row_loop_opened)

section \<open>The run as a whole\<close>

lemma py_truediv_error: "py_truediv x y = Inl err \<Longrightarrow> err = ZeroDivisionError"
  by (cases x; cases y) (auto split: if_splits)

lemma math_ceil_error:
  "math_ceil q = Inl err \<Longrightarrow> err = OverflowError_ceil_inf \<or> err = ValueError_ceil_nan"
  by (cases q) auto

lemma tile_size_pixels_error:
  assumes "tile_size_pixels x y = Inl err"
  shows "err = ZeroDivisionError \<or> err = OverflowError_ceil_inf \<or> err = ValueError_ceil_nan"
proof (cases "py_truediv x y")
  case (Inl e)
  with assms py_truediv_error [of x y e] show ?thesis
    by (simp add: tile_size_pixels_def)
next
  case (Inr q)
  with assms math_ceil_error [of q err] show ?thesis
    by (simp add: tile_size_pixels_def)
qed

lemma num_tiles_nonzero: "tp \<noteq> 0 \<Longrightarrow> num_tiles n tp = Inr ((n + tp - 1) div tp)"
  by (simp add: num_tiles_def py_floordiv_def)

lemma num_tiles_zero: "num_tiles n 0 = Inl ZeroDivisionError"
  by (simp add: num_tiles_def py_floordiv_def)

lemma tiling_zero_resolution:
  assumes "is_zero (py_abs (affine_getitem (transform src) 0))
         \<or> is_zero (py_abs (affine_getitem (transform src) 4))"
  shows "tiling src t sp pn = ([], Inl ValueError_resolution)"
  using assms by (simp add: tiling_def Let_def)

lemma tiling_tile_size_error:
  assumes "\<not> is_zero (py_abs (affine_getitem (transform src) 0))"
    and "\<not> is_zero (py_abs (affine_getitem (transform src) 4))"
    and "tile_size_pixels t (py_abs (affine_getitem (transform src) 0)) = Inl err"
  shows "tiling src t sp pn = ([], Inl err)"
  using assms by (simp add: tiling_def Let_def)

lemma tiling_zero_tile:
  assumes "\<not> is_zero (py_abs (affine_getitem (transform src) 0))"
    and "\<not> is_zero (py_abs (affine_getitem (transform src) 4))"
    and "tile_size_pixels t (py_abs (affine_getitem (transform src) 0)) = Inr 0"
  shows "snd (tiling src t sp pn) = Inl ZeroDivisionError"
  using assms by (simp add: tiling_def Let_def num_tiles_zero)

lemma tiling_grid:
  assumes "\<not> is_zero (py_abs (affine_getitem (transform src) 0))"
    and "\<not> is_zero (py_abs (affine_getitem (transform src) 4))"
    and "tile_size_pixels t (py_abs (affine_getitem (transform src) 0)) = Inr tp"
    and "tp \<noteq> 0"
    and "w_tiles = (int (width src) + tp - 1) div tp"
    and "h_tiles = (int (height src) + tp - 1) div tp"
  shows "tiling src t sp pn =
    ([Print (Metadata (width src) (height src) (count src)
        (py_abs (affine_getitem (transform src) 0)) (py_abs (affine_getitem (transform src) 4))
        t tp),
      Print (CreatingTiles (w_tiles * h_tiles) w_tiles h_tiles)]
       @ fst (grid_loop src tp sp pn (py_range h_tiles) (py_range w_tiles) 0),
     Inr (snd (grid_loop src tp sp pn (py_range h_tiles) (py_range w_tiles) 0)))"
  using assms by (simp add: tiling_def Let_def num_tiles_nonzero case_prod_beta)

lemma tiling_error:
  assumes "snd (tiling src t sp pn) = Inl err"
  shows "err \<noteq> FileNotFoundError"
    and "err = ValueError_resolution \<longleftrightarrow>
      is_zero (py_abs (affine_getitem (transform src) 0))
      \<or> is_zero (py_abs (affine_getitem (transform src) 4))"
proof -
  let ?pw = "py_abs (affine_getitem (transform src) 0)"
  let ?ph = "py_abs (affine_getitem (transform src) 4)"
  have "err \<noteq> FileNotFoundError \<and> (err = ValueError_resolution \<longleftrightarrow> is_zero ?pw \<or> is_zero ?ph)"
  proof (cases "is_zero ?pw \<or> is_zero ?ph")
    case True
    with assms tiling_zero_resolution [OF True, of t sp pn] show ?thesis
      by simp
  next
    case nz: False
    show ?thesis
    proof (cases "tile_size_pixels t ?pw")
      case (Inl e)
      with nz assms tile_size_pixels_error [OF Inl] show ?thesis
        by (auto simp add: tiling_tile_size_error)
    next
      case (Inr tp)
      show ?thesis
      proof (cases "tp = 0")
        case True
        with nz Inr assms show ?thesis
          by (auto simp add: tiling_zero_tile)
      next
        case False
        with nz Inr assms show ?thesis
          by (auto simp add: tiling_grid)
      qed
    qed
  qed
  then show "err \<noteq> FileNotFoundError"
    and "err = ValueError_resolution \<longleftrightarrow> is_zero ?pw \<or> is_zero ?ph"
    by simp_all
qed

lemma tiling_made_dirs: "made_dirs (fst (tiling src t sp pn)) = []"
  by (simp add: tiling_def Let_def case_prod_beta made_dirs_append grid_loop_made_dirs
      split: sum.splits)

lemma tiling_opened: "opened (fst (tiling src t sp pn)) = []"
  by (simp add: tiling_def Let_def case_prod_beta opened_append grid_loop_opened
      split: sum.splits)

lemma tiling_unsupported:
  "count src \<noteq> 3 \<Longrightarrow> count src \<noteq> 4 \<Longrightarrow> writes (fst (tiling src t sp pn)) = []"
  by (simp add: tiling_def Let_def case_prod_beta writes_append grid_loop_unsupported
      split: sum.splits)

lemma make_save_dir_ok:
  "path_exists w sp \<or> makedirs w sp = None \<Longrightarrow>
   make_save_dir w sp
     = (if \<not> path_exists w sp then [Print WarnCreatingDir, MakeDirs sp] else [], None)"
  by (auto simp add: make_save_dir_def)

lemma make_save_dir_fails:
  "\<not> path_exists w sp \<Longrightarrow> makedirs w sp = Some err \<Longrightarrow>
   make_save_dir w sp = ([Print WarnCreatingDir], Some err)"
  by (simp add: make_save_dir_def)

lemma split_image_missing:
  "\<not> isfile w image_path \<Longrightarrow>
   split_image w image_path t sp pn = ([Print (Processing image_path t)], Inl FileNotFoundError)"
  by (simp add: split_image_def)

lemma split_image_makedirs_fails:
  "isfile w image_path \<Longrightarrow> \<not> path_exists w sp \<Longrightarrow> makedirs w sp = Some err \<Longrightarrow>
   split_image w image_path t sp pn
     = ([Print (Processing image_path t), Print WarnCreatingDir], Inl err)"
  by (simp add: split_image_def make_save_dir_fails)

lemma split_image_result:
  "isfile w image_path \<Longrightarrow> path_exists w sp \<or> makedirs w sp = None \<Longrightarrow>
   snd (split_image w image_path t sp pn) = snd (tiling (raster_at w image_path) t sp pn)"
  by (simp add: split_image_def make_save_dir_ok Let_def split: prod.splits sum.splits)

lemma split_image_trace:
  "isfile w image_path \<Longrightarrow> path_exists w sp \<or> makedirs w sp = None \<Longrightarrow>
   fst (split_image w image_path t sp pn) =
     Print (Processing image_path t)
     # (if \<not> path_exists w sp then [Print WarnCreatingDir, MakeDirs sp] else [])
     @ [OpenRaster image_path]
     @ fst (tiling (raster_at w image_path) t sp pn)
     @ (case snd (tiling (raster_at w image_path) t sp pn) of
          Inl err \<Rightarrow> [CloseRaster image_path]
        | Inr n \<Rightarrow> [CloseRaster image_path, Print Done])"
  by (simp add: split_image_def make_save_dir_ok Let_def split: prod.splits sum.splits)

lemma split_image_reads:
  "isfile w image_path \<Longrightarrow> path_exists w sp \<or> makedirs w sp = None \<Longrightarrow>
   reads (fst (split_image w image_path t sp pn)) =
     reads (fst (tiling (raster_at w image_path) t sp pn))"
  by (simp add: split_image_trace reads_append split: sum.splits)

lemma split_image_writes:
  "isfile w image_path \<Longrightarrow> path_exists w sp \<or> makedirs w sp = None \<Longrightarrow>
   writes (fst (split_image w image_path t sp pn)) =
     writes (fst (tiling (raster_at w image_path) t sp pn))"
  by (simp add: split_image_trace writes_append split: sum.splits)

lemma split_image_tile_numbers:
  "isfile w image_path \<Longrightarrow> path_exists w sp \<or> makedirs w sp = None \<Longrightarrow>
   tile_numbers (fst (split_image w image_path t sp pn)) =
     tile_numbers (fst (tiling (raster_at w image_path) t sp pn))"
  by (simp add: split_image_trace tile_numbers_append split: sum.splits)

lemma split_image_made_dirs:
  "isfile w image_path \<Longrightarrow> path_exists w sp \<or> makedirs w sp = None \<Longrightarrow>
   made_dirs (fst (split_image w image_path t sp pn)) = (if path_exists w sp then [] else [sp])"
  by (simp add: split_image_trace made_dirs_append tiling_made_dirs split: sum.splits)

lemma split_image_opened:
  "isfile w image_path \<Longrightarrow> path_exists w sp \<or> makedirs w sp = None \<Longrightarrow>
   opened (fst (split_image w image_path t sp pn)) = [image_path]"
  by (simp add: split_image_trace opened_append tiling_opened split: sum.splits)

lemma py_range_length: "length (py_range n) = nat n"
  by (simp add: py_range_def)

lemma num_tiles_nonneg:
  fixes W tp :: int
  assumes "1 \<le> tp" and "0 \<le> W"
  shows "0 \<le> (W + tp - 1) div tp"
  using assms by (simp add: pos_imp_zdiv_nonneg_iff)

lemma tile_size_pixels_normal:
  assumes "0 < t" and "0 < p" and "2 powi (- 1074) \<le> t / p" and "t / p < 2 powi 1023"
  shows "\<exists>q. py_truediv (Fin t) (py_abs (Fin p)) = Inr (Fin q) \<and> 0 < q
    \<and> tile_size_pixels (Fin t) (py_abs (Fin p)) = Inr \<lceil>q\<rceil> \<and> 1 \<le> \<lceil>q\<rceil>"
proof -
  from round_double_normal [OF assms(3,4)]
  obtain q where q: "round_double (t / p) = Fin q" "2 powi (- 1074) \<le> q"
    by blast
  have "(0::rat) < 2 powi (- 1074)"
    by (rule zero_less_power_int) simp
  from this q(2) have q0: "0 < q"
    by (rule less_le_trans)
  then have c: "1 \<le> \<lceil>q\<rceil>"
    by (simp add: le_ceiling_iff)
  from assms(2) q(1) have d: "py_truediv (Fin t) (py_abs (Fin p)) = Inr (Fin q)"
    by simp
  then have "tile_size_pixels (Fin t) (py_abs (Fin p)) = Inr \<lceil>q\<rceil>"
    by (simp add: tile_size_pixels_def)
  with d q0 c show ?thesis
    by blast
qed

lemma tile_size_pixels_underflow:
  assumes "0 < t" and "0 < p" and "t / p < 2 powi (- 1075)"
  shows "tile_size_pixels (Fin t) (py_abs (Fin p)) = Inr 0"
proof -
  from assms(1,2) have "0 < t / p"
    by simp
  from this assms(3) have "round_double (t / p) = Fin 0"
    by (rule round_double_underflow)
  with assms(2) show ?thesis
    by (simp add: tile_size_pixels_def)
qed


lemma round_double_2: "round_double 2 = Fin 2"
  using round_double_of_int [of 2] by simp

lemma nth_concat_rows:
  "k < m * n \<Longrightarrow> concat (map (\<lambda>i. map (f i) [0..<n]) [0..<m]) ! k = f (k div n) (k mod n)"
proof (induction m)
  case 0
  then show ?case by simp
next
  case (Suc m)
  have len: "length (concat (map (\<lambda>i. map (f i) [0..<n]) [0..<m])) = m * n"
    by (induction m) simp_all
  show ?case
  proof (cases "k < m * n")
    case True
    with Suc.IH len show ?thesis
      by (simp add: nth_append)
  next
    case False
    define j where "j = k - m * n"
    from False have k: "k = j + m * n"
      by (simp add: j_def)
    with Suc.prems have j: "j < n"
      by simp
    then have "k div n = m" and "k mod n = j"
      by (simp_all add: k)
    with j len show ?thesis
      by (simp add: nth_append k)
  qed
qed

lemma grid_reads_nth:
  assumes "0 \<le> w_tiles" and "k < nat h_tiles * nat w_tiles"
  shows "concat (map (\<lambda>i. map (f i) (py_range w_tiles)) (py_range h_tiles)) ! k
    = f (int k div w_tiles) (int k mod w_tiles)"
proof -
  have "concat (map (\<lambda>i. map (f i) (py_range w_tiles)) (py_range h_tiles))
      = concat (map (\<lambda>i. map (\<lambda>j. f (int i) (int j)) [0..<nat w_tiles]) [0..<nat h_tiles])"
    by (simp add: py_range_def comp_def)
  also have "\<dots> ! k = f (int (k div nat w_tiles)) (int (k mod nat w_tiles))"
    using assms(2) by (rule nth_concat_rows)
  also have "int (k div nat w_tiles) = int k div w_tiles"
    using assms(1) by (simp add: zdiv_int)
  also have "int (k mod nat w_tiles) = int k mod w_tiles"
    using assms(1) by (simp add: zmod_int)
  finally show ?thesis .
qed

lemma full_run:
  assumes "isfile w image_path"
    and "src = raster_at w image_path"
    and "\<not> is_zero (py_abs (affine_getitem (transform src) 0))"
    and "\<not> is_zero (py_abs (affine_getitem (transform src) 4))"
    and "tile_size_pixels t (py_abs (affine_getitem (transform src) 0)) = Inr tp"
    and "1 \<le> tp"
    and "w_tiles = (int (width src) + tp - 1) div tp"
    and "h_tiles = (int (height src) + tp - 1) div tp"
    and "run = split_image w image_path t sp pn"
    and dir: "path_exists w sp \<or> makedirs w sp = None"
  shows "0 \<le> w_tiles" and "0 \<le> h_tiles"
    and "int (nat h_tiles * nat w_tiles) = w_tiles * h_tiles"
    and "snd run = Inr (nat h_tiles * nat w_tiles)"
    and "reads (fst run) = concat (map (\<lambda>i. map (tile_window (int (width src)) (int (height src)) tp i)
           (py_range w_tiles)) (py_range h_tiles))"
    and "tile_numbers (fst run) = [0..<nat h_tiles * nat w_tiles]"
    and "count src \<noteq> 3 \<Longrightarrow> count src \<noteq> 4 \<Longrightarrow> writes (fst run) = []"
proof -
  show w0: "0 \<le> w_tiles" and h0: "0 \<le> h_tiles"
    unfolding assms(7,8) using assms(6) by (simp_all add: num_tiles_nonneg)
  then show "int (nat h_tiles * nat w_tiles) = w_tiles * h_tiles"
    by simp
  from assms(6) have tp: "tp \<noteq> 0"
    by simp
  note g = tiling_grid [OF assms(3,4,5) tp assms(7,8), of sp pn]
  have r: "snd run = snd (tiling src t sp pn)"
    using assms(1) dir by (simp add: assms(2,9) split_image_result)
  then show "snd run = Inr (nat h_tiles * nat w_tiles)"
    by (simp add: g grid_loop_next py_range_length)
  have "reads (fst run) = reads (fst (tiling src t sp pn))"
    using assms(1) dir by (simp add: assms(2,9) split_image_reads)
  then show "reads (fst run) = concat (map (\<lambda>i. map (tile_window (int (width src)) (int (height src)) tp i)
           (py_range w_tiles)) (py_range h_tiles))"
    by (simp add: g reads_append grid_loop_reads)
  have "tile_numbers (fst run) = tile_numbers (fst (tiling src t sp pn))"
    using assms(1) dir by (simp add: assms(2,9) split_image_tile_numbers)
  then show "tile_numbers (fst run) = [0..<nat h_tiles * nat w_tiles]"
    by (simp add: g tile_numbers_append grid_loop_numbers py_range_length)
  show "writes (fst run) = []" if "count src \<noteq> 3" "count src \<noteq> 4"
    using assms(1) dir that by (simp add: assms(2,9) split_image_writes tiling_unsupported)
qed

lemma tile_size_example_2: "tile_size_pixels (Fin 1) (py_abs (Fin (1 / 2))) = Inr 2"
  by (simp add: tile_size_pixels_def round_double_2)

section \<open>Arrays and the example raster\<close>

lemma list_all_upt: "list_all P [0..<n] \<longleftrightarrow> (\<forall>i<n. P i)"
  by (auto simp add: list_all_iff)

lemma list_ex_upt: "list_ex P [0..<n] \<longleftrightarrow> (\<exists>i<n. P i)"
  by (auto simp add: list_ex_iff)

lemma alpha_all_zero_iff:
  assumes "shape3 td = (b, h, w)"
  shows "np_all_zero (channel 3 (take_channels [2, 1, 0, 3] (np_transpose_120 td)))
    \<longleftrightarrow> (\<forall>r<h. \<forall>c<w. at3 td 3 r c = 0)"
  using assms
  by (simp add: np_all_zero_def channel_def take_channels_def np_transpose_120_def list_all_upt)

lemma np_any_iff:
  assumes "shape3 td = (b, h, w)"
  shows "np_any (np_transpose_120 td) \<longleftrightarrow> (\<exists>r<h. \<exists>c<w. \<exists>k<b. at3 td k r c \<noteq> 0)"
  using assms
  by (simp add: np_any_def np_transpose_120_def list_ex_upt)

lemma src_read_bands: "shape3 (src_read src window) = (b, h, w) \<Longrightarrow> b = count src"
  by (cases window) simp

lemma np_none_iff:
  assumes "shape3 td = (b, h, w)"
  shows "\<not> np_any (np_transpose_120 td) \<longleftrightarrow> (\<forall>k<b. \<forall>r<h. \<forall>c<w. at3 td k r c = 0)"
  unfolding np_any_iff [OF assms] by auto

lemma example_path: "os_path_join ''tiles'' (tile_filename ''p'' 1) = ''tiles/p_tile_1.png''"
  by (simp add: os_path_join_def tile_filename_def digit_def)

lemma example_window_00:
  "tile_window (int (width (example_raster 3 2 bands res)))
     (int (height (example_raster 3 2 bands res))) 2 0 0 = Window 0 0 2 2"
  by (simp add: example_raster_def tile_window_def)

lemma example_window_01:
  "tile_window (int (width (example_raster 3 2 bands res)))
     (int (height (example_raster 3 2 bands res))) 2 0 1 = Window 2 0 1 2"
  by (simp add: example_raster_def tile_window_def)

lemma example_shape_00:
  "shape3 (src_read (example_raster 3 2 bands res) (Window 0 0 2 2)) = (bands, 2, 2)"
  by (simp add: example_raster_def)

lemma example_shape_01:
  "shape3 (src_read (example_raster 3 2 bands res) (Window 2 0 1 2)) = (bands, 2, 1)"
  by (simp add: example_raster_def)

lemma full_run_nth:
  assumes "isfile w image_path"
    and "src = raster_at w image_path"
    and "\<not> is_zero (py_abs (affine_getitem (transform src) 0))"
    and "\<not> is_zero (py_abs (affine_getitem (transform src) 4))"
    and "tile_size_pixels t (py_abs (affine_getitem (transform src) 0)) = Inr tp"
    and "1 \<le> tp"
    and "w_tiles = (int (width src) + tp - 1) div tp"
    and "h_tiles = (int (height src) + tp - 1) div tp"
    and "run = split_image w image_path t sp pn"
    and "k < nat h_tiles * nat w_tiles"
    and dir: "path_exists w sp \<or> makedirs w sp = None"
  shows "reads (fst run) ! k
    = tile_window (int (width src)) (int (height src)) tp (int k div w_tiles) (int k mod w_tiles)"
  unfolding full_run(5) [OF assms(1-9) dir]
  using full_run(1) [OF assms(1-9) dir] assms(10) by (rule grid_reads_nth)

lemma tile_size_example_200: "tile_size_pixels (Fin 100) (Fin (1 / 2)) = Inr 200"
  by (simp add: tile_size_pixels_def round_double_200)

lemma example_tiles_exists: "path_exists (example_world wd ht bands res) ''tiles''"
  by (simp add: example_world_def)

lemma example_newdir:
  "\<not> path_exists (example_world wd ht bands res) ''newdir''"
  "makedirs (example_world wd ht bands res) ''newdir'' = None"
  by (simp_all add: example_world_def)

section \<open>The claims\<close>

text \<open>
  C1, as stated, fails: on a raster of pixel width 4 the positive tile size
  \<open>2 powi (- 1074)\<close>, the least positive float, gives a quotient that rounds to zero;
  the tile size in pixels is 0 and the run ends with \<^verbatim>\<open>ZeroDivisionError\<close> where
  the grid was to be computed.
\<close>

theorem grid_underflow_counterexample:
  "(0::rat) < 2 powi (- 1074) \<and> round_double (2 powi (- 1074)) = Fin (2 powi (- 1074))
   \<and> round_double 4 = Fin 4
   \<and> isfile (example_world 500 500 4 4) ''ortho.tif''
   \<and> py_abs (affine_getitem (transform (raster_at (example_world 500 500 4 4) ''ortho.tif'')) 0)
       = Fin 4
   \<and> snd (split_image (example_world 500 500 4 4) ''ortho.tif'' (Fin (2 powi (- 1074))) ''tiles'' ''p'')
       = Inl ZeroDivisionError"
proof -
  let ?w = "example_world 500 500 4 4"
  let ?src = "raster_at ?w ''ortho.tif''"
  have p: "isfile ?w ''ortho.tif''"
    by (simp add: example_world_def)
  have a: "py_abs (affine_getitem (transform ?src) 0) = Fin 4"
    and nz: "\<not> is_zero (py_abs (affine_getitem (transform ?src) 0))"
      "\<not> is_zero (py_abs (affine_getitem (transform ?src) 4))"
    by (simp_all add: example_world_def example_raster_def affine_getitem_def)
  have "tile_size_pixels (Fin (2 powi (- 1074))) (py_abs (Fin 4)) = Inr 0"
    by (rule tile_size_pixels_underflow) simp_all
  then have "tile_size_pixels (Fin (2 powi (- 1074))) (Fin 4) = Inr 0"
    by simp
  then have ts: "tile_size_pixels (Fin (2 powi (- 1074))) (py_abs (affine_getitem (transform ?src) 0))
      = Inr 0"
    by (simp only: a)
  from tiling_zero_tile [OF nz ts]
  have r: "snd (split_image ?w ''ortho.tif'' (Fin (2 powi (- 1074))) ''tiles'' ''p'')
      = Inl ZeroDivisionError"
    by (simp only: split_image_result [OF p disjI1 [OF example_tiles_exists]])
  have "(0::rat) < 2 powi (- 1074)"
    by simp
  with round_double_least round_double_4 p a r show ?thesis
    by (intro conjI)
qed

text \<open>
  C1, amended.  For every non-zero finite scale term \<open>a\<close> and every positive finite tile
  size \<open>t\<close> whose exact quotient \<open>t / \<bar>a\<bar>\<close> is at least \<open>2 powi (- 1074)\<close> and below
  \<open>2 powi 1023\<close>, the float quotient is a finite \<open>q\<close>, the tile size in pixels is the
  ceiling of \<open>q\<close>, and the numbers of tiles across and down are the ceilings of the image
  width and height over the tile size in pixels.  In particular, on a raster of 500 by
  500 pixels with pixel width \<open>1 / 2\<close> and the tile size 100, the tile size in pixels is
  200, the grid is 3 by 3, and a run whose output directory exists or is created numbers
  9 tiles, the tile of number 0 being read from the window \<open>(0, 0, 200, 200)\<close> and the
  tile of number 2 from \<open>(400, 0, 100, 200)\<close>.
\<close>

theorem grid_computation:
  assumes "a \<noteq> 0" and "0 < t"
    and "2 powi (- 1074) \<le> t / \<bar>a\<bar>" and "t / \<bar>a\<bar> < 2 powi 1023"
    and "isfile w image_path"
    and "src = raster_at w image_path"
    and "width src = 500" and "height src = 500"
    and "py_abs (affine_getitem (transform src) 0) = Fin (1 / 2)"
    and "\<not> is_zero (py_abs (affine_getitem (transform src) 4))"
    and "run = split_image w image_path (Fin 100) sp pn"
    and dir: "path_exists w sp \<or> makedirs w sp = None"
  shows "(\<exists>q. py_truediv (Fin t) (py_abs (Fin a)) = Inr (Fin q)
            \<and> tile_size_pixels (Fin t) (py_abs (Fin a)) = Inr \<lceil>q\<rceil>
            \<and> num_tiles (int W) \<lceil>q\<rceil> = Inr \<lceil>(of_int (int W) :: rat) / of_int \<lceil>q\<rceil>\<rceil>
            \<and> num_tiles (int H) \<lceil>q\<rceil> = Inr \<lceil>(of_int (int H) :: rat) / of_int \<lceil>q\<rceil>\<rceil>)
     \<and> tile_size_pixels (Fin 100) (py_abs (affine_getitem (transform src) 0)) = Inr 200
     \<and> num_tiles (int (width src)) 200 = Inr 3
     \<and> num_tiles (int (height src)) 200 = Inr 3
     \<and> snd run = Inr 9
     \<and> tile_numbers (fst run) = [0..<9]
     \<and> reads (fst run) ! 0 = Window 0 0 200 200
     \<and> reads (fst run) ! 2 = Window 400 0 100 200"
proof -
  have general: "\<exists>q. py_truediv (Fin t) (py_abs (Fin a)) = Inr (Fin q)
      \<and> tile_size_pixels (Fin t) (py_abs (Fin a)) = Inr \<lceil>q\<rceil>
      \<and> num_tiles (int W) \<lceil>q\<rceil> = Inr \<lceil>(of_int (int W) :: rat) / of_int \<lceil>q\<rceil>\<rceil>
      \<and> num_tiles (int H) \<lceil>q\<rceil> = Inr \<lceil>(of_int (int H) :: rat) / of_int \<lceil>q\<rceil>\<rceil>"
  proof -
    from assms(1) have "0 < \<bar>a\<bar>"
      by simp
    from tile_size_pixels_normal [OF assms(2) this assms(3,4)]
    obtain q :: rat where "py_truediv (Fin t) (py_abs (Fin \<bar>a\<bar>)) = Inr (Fin q)"
      and "tile_size_pixels (Fin t) (py_abs (Fin \<bar>a\<bar>)) = Inr \<lceil>q\<rceil>" and q1: "1 \<le> \<lceil>q\<rceil>"
      by blast
    then have d: "py_truediv (Fin t) (py_abs (Fin a)) = Inr (Fin q)"
      and ts: "tile_size_pixels (Fin t) (py_abs (Fin a)) = Inr \<lceil>q\<rceil>"
      by simp_all
    from q1 have "\<lceil>q\<rceil> \<noteq> 0"
      by linarith
    then have nt: "num_tiles (int n) \<lceil>q\<rceil> = Inr ((int n + \<lceil>q\<rceil> - 1) div \<lceil>q\<rceil>)" for n
      by (rule num_tiles_nonzero)
    have cd: "\<lceil>(of_int (int n) :: rat) / of_int \<lceil>q\<rceil>\<rceil> = (int n + \<lceil>q\<rceil> - 1) div \<lceil>q\<rceil>" for n
      using q1 by (rule ceiling_div_eq)
    have "num_tiles (int W) \<lceil>q\<rceil> = Inr \<lceil>(of_int (int W) :: rat) / of_int \<lceil>q\<rceil>\<rceil>"
      and "num_tiles (int H) \<lceil>q\<rceil> = Inr \<lceil>(of_int (int H) :: rat) / of_int \<lceil>q\<rceil>\<rceil>"
      by (simp_all only: nt cd)
    with d ts show ?thesis
      by blast
  qed
  have ts: "tile_size_pixels (Fin 100) (py_abs (affine_getitem (transform src) 0)) = Inr 200"
    by (simp only: assms(9) tile_size_example_200)
  have nz: "\<not> is_zero (py_abs (affine_getitem (transform src) 0))"
    by (simp add: assms(9))
  have tp: "(1::int) \<le> 200"
    by simp
  have w3: "(int (width src) + 200 - 1) div 200 = 3" and h3: "(int (height src) + 200 - 1) div 200 = 3"
    by (simp_all add: assms(7,8))
  note f = full_run [OF assms(5,6) nz assms(10) ts tp refl refl assms(11) dir]
  note n = full_run_nth [OF assms(5,6) nz assms(10) ts tp refl refl assms(11) _ dir]
  have "num_tiles (int (width src)) 200 = Inr ((int (width src) + 200 - 1) div 200)"
    by (rule num_tiles_nonzero) simp
  then have nw: "num_tiles (int (width src)) 200 = Inr 3"
    by (simp only: w3)
  have "num_tiles (int (height src)) 200 = Inr ((int (height src) + 200 - 1) div 200)"
    by (rule num_tiles_nonzero) simp
  then have nh: "num_tiles (int (height src)) 200 = Inr 3"
    by (simp only: h3)
  from f(4) have s: "snd run = Inr 9"
    by (simp add: assms(7,8))
  from f(6) have tn: "tile_numbers (fst run) = [0..<9]"
    by (simp only: w3 h3) simp
  have "reads (fst run) ! 0 = tile_window (int (width src)) (int (height src)) 200
      (int 0 div ((int (width src) + 200 - 1) div 200)) (int 0 mod ((int (width src) + 200 - 1) div 200))"
    by (rule n) (simp add: assms(7,8))
  then have r0: "reads (fst run) ! 0 = Window 0 0 200 200"
    by (simp add: assms(7,8) tile_window_def)
  have "reads (fst run) ! 2 = tile_window (int (width src)) (int (height src)) 200
      (int 2 div ((int (width src) + 200 - 1) div 200)) (int 2 mod ((int (width src) + 200 - 1) div 200))"
    by (rule n) (simp add: assms(7,8))
  then have r2: "reads (fst run) ! 2 = Window 400 0 100 200"
    by (simp add: assms(7,8) tile_window_def)
  from general ts nw nh s tn r0 r2 show ?thesis
    by (intro conjI)
qed

theorem grid_computation_witness:
  "(1 / 2 :: rat) \<noteq> 0 \<and> (0::rat) < 100
   \<and> 2 powi (- 1074) \<le> (100::rat) / \<bar>1 / 2\<bar> \<and> (100::rat) / \<bar>1 / 2\<bar> < 2 powi 1023
   \<and> isfile (example_world 500 500 4 (1 / 2)) ''ortho.tif''
   \<and> width (raster_at (example_world 500 500 4 (1 / 2)) ''ortho.tif'') = 500
   \<and> height (raster_at (example_world 500 500 4 (1 / 2)) ''ortho.tif'') = 500
   \<and> py_abs (affine_getitem (transform (raster_at (example_world 500 500 4 (1 / 2)) ''ortho.tif'')) 0)
       = Fin (1 / 2)
   \<and> \<not> is_zero (py_abs (affine_getitem
          (transform (raster_at (example_world 500 500 4 (1 / 2)) ''ortho.tif'')) 4))
   \<and> path_exists (example_world 500 500 4 (1 / 2)) ''tiles''
   \<and> (\<exists>q. py_truediv (Fin 100) (py_abs (Fin (1 / 2))) = Inr (Fin q)
          \<and> tile_size_pixels (Fin 100) (py_abs (Fin (1 / 2))) = Inr \<lceil>q\<rceil>
          \<and> num_tiles (int 500) \<lceil>q\<rceil> = Inr \<lceil>(of_int (int 500) :: rat) / of_int \<lceil>q\<rceil>\<rceil>
          \<and> num_tiles (int 500) \<lceil>q\<rceil> = Inr \<lceil>(of_int (int 500) :: rat) / of_int \<lceil>q\<rceil>\<rceil>)
   \<and> tile_size_pixels (Fin 100)
        (py_abs (affine_getitem (transform (raster_at (example_world 500 500 4 (1 / 2)) ''ortho.tif'')) 0))
       = Inr 200
   \<and> snd (split_image (example_world 500 500 4 (1 / 2)) ''ortho.tif'' (Fin 100) ''tiles'' ''p'')
       = Inr 9
   \<and> tile_numbers (fst (split_image (example_world 500 500 4 (1 / 2)) ''ortho.tif''
          (Fin 100) ''tiles'' ''p'')) = [0..<9]
   \<and> reads (fst (split_image (example_world 500 500 4 (1 / 2)) ''ortho.tif''
          (Fin 100) ''tiles'' ''p'')) ! 0 = Window 0 0 200 200
   \<and> reads (fst (split_image (example_world 500 500 4 (1 / 2)) ''ortho.tif''
          (Fin 100) ''tiles'' ''p'')) ! 2 = Window 400 0 100 200"
proof -
  let ?w = "example_world 500 500 4 (1 / 2)"
  let ?src = "raster_at ?w ''ortho.tif''"
  have h1: "(1 / 2 :: rat) \<noteq> 0" and h2: "(0::rat) < 100"
    and h3: "2 powi (- 1074) \<le> (100::rat) / \<bar>1 / 2\<bar>" and h4: "(100::rat) / \<bar>1 / 2\<bar> < 2 powi 1023"
    by simp_all
  have p: "isfile ?w ''ortho.tif''"
    and wd: "width ?src = 500" and ht: "height ?src = 500"
    by (simp_all add: example_world_def example_raster_def)
  have a: "py_abs (affine_getitem (transform ?src) 0) = Fin (1 / 2)"
    and nz: "\<not> is_zero (py_abs (affine_getitem (transform ?src) 4))"
    by (simp_all add: example_world_def example_raster_def affine_getitem_def)
  have d: "path_exists ?w ''tiles''"
    by (rule example_tiles_exists)
  note g = grid_computation [where W = 500 and H = 500 and pn = "''p''",
      OF h1 h2 h3 h4 p refl wd ht a nz refl disjI1 [OF d]]
  from g h1 h2 h3 h4 p wd ht a nz d show ?thesis
    by blast
qed

text \<open>
  C2.  For a tile of a raster of 4 bands, read as \<open>tile_data\<close> of shape \<open>(b, h, w)\<close>: if
  every sample of band 3 of the tile is zero, the tile is read and reported empty, no
  image is written and the tile number moves on by one; otherwise an image of 4 channels
  is written under the tile's file name, whose channels 0 and 2 are bands 2 and 0 of the
  tile and whose channels 1 and 3 are bands 1 and 3, every sample unchanged.
\<close>

theorem four_band_tile:
  assumes "count src = 4"
    and "window = tile_window (int (width src)) (int (height src)) tp i j"
    and "tile_data = src_read src window"
    and "shape3 tile_data = (b, h, w)"
    and "output_path = os_path_join sp (tile_filename pn n)"
  shows "((\<forall>r<h. \<forall>c<w. at3 tile_data 3 r c = 0) \<longrightarrow>
            process_tile src tp sp pn i j n
              = ([ReadWindow window, Print (TileEmptyAlpha n)], n + 1))
     \<and> (\<not> (\<forall>r<h. \<forall>c<w. at3 tile_data 3 r c = 0) \<longrightarrow>
          (\<exists>out_img. process_tile src tp sp pn i j n
              = ([ReadWindow window, ImWrite output_path out_img,
                  Print (TileSaved n output_path)], n + 1)
            \<and> shape3 out_img = (h, w, 4)
            \<and> (\<forall>r c. at3 out_img r c 0 = at3 tile_data 2 r c
                  \<and> at3 out_img r c 1 = at3 tile_data 1 r c
                  \<and> at3 out_img r c 2 = at3 tile_data 0 r c
                  \<and> at3 out_img r c 3 = at3 tile_data 3 r c)))"
proof (intro conjI impI)
  let ?out = "take_channels [2, 1, 0, 3] (np_transpose_120 tile_data)"
  note z = alpha_all_zero_iff [OF assms(4)]
  assume "\<forall>r<h. \<forall>c<w. at3 tile_data 3 r c = 0"
  with z have "np_all_zero (channel 3 ?out)"
    by simp
  then show "process_tile src tp sp pn i j n = ([ReadWindow window, Print (TileEmptyAlpha n)], n + 1)"
    using assms(1) by (simp add: process_tile_def Let_def flip: assms(2,3))
next
  let ?out = "take_channels [2, 1, 0, 3] (np_transpose_120 tile_data)"
  note z = alpha_all_zero_iff [OF assms(4)]
  assume "\<not> (\<forall>r<h. \<forall>c<w. at3 tile_data 3 r c = 0)"
  with z have "\<not> np_all_zero (channel 3 ?out)"
    by simp
  then have "process_tile src tp sp pn i j n
      = ([ReadWindow window, ImWrite output_path ?out, Print (TileSaved n output_path)], n + 1)"
    using assms(1) by (simp add: process_tile_def Let_def assms(5) flip: assms(2,3))
  moreover have "shape3 ?out = (h, w, 4)"
    using assms(4) by (simp add: take_channels_def np_transpose_120_def)
  moreover have "\<forall>r c. at3 ?out r c 0 = at3 tile_data 2 r c
      \<and> at3 ?out r c 1 = at3 tile_data 1 r c
      \<and> at3 ?out r c 2 = at3 tile_data 0 r c
      \<and> at3 ?out r c 3 = at3 tile_data 3 r c"
    using assms(4) by (simp add: take_channels_def np_transpose_120_def)
  ultimately show "\<exists>out_img. process_tile src tp sp pn i j n
      = ([ReadWindow window, ImWrite output_path out_img, Print (TileSaved n output_path)], n + 1)
    \<and> shape3 out_img = (h, w, 4)
    \<and> (\<forall>r c. at3 out_img r c 0 = at3 tile_data 2 r c
          \<and> at3 out_img r c 1 = at3 tile_data 1 r c
          \<and> at3 out_img r c 2 = at3 tile_data 0 r c
          \<and> at3 out_img r c 3 = at3 tile_data 3 r c)"
    by blast
qed

theorem four_band_tile_witness:
  "count (example_raster 3 2 4 (1 / 2)) = 4
   \<and> shape3 (src_read (example_raster 3 2 4 (1 / 2)) (Window 0 0 2 2)) = (4, 2, 2)
   \<and> list_all (\<lambda>r. list_all (\<lambda>c.
          at3 (src_read (example_raster 3 2 4 (1 / 2)) (Window 0 0 2 2)) 3 r c = 0) [0..<2]) [0..<2]
   \<and> process_tile (example_raster 3 2 4 (1 / 2)) 2 ''tiles'' ''p'' 0 0 0
       = ([ReadWindow (Window 0 0 2 2), Print (TileEmptyAlpha 0)], 1)
   \<and> shape3 (src_read (example_raster 3 2 4 (1 / 2)) (Window 2 0 1 2)) = (4, 2, 1)
   \<and> at3 (src_read (example_raster 3 2 4 (1 / 2)) (Window 2 0 1 2)) 3 0 0 \<noteq> 0
   \<and> (\<exists>out_img. process_tile (example_raster 3 2 4 (1 / 2)) 2 ''tiles'' ''p'' 0 1 1
          = ([ReadWindow (Window 2 0 1 2), ImWrite ''tiles/p_tile_1.png'' out_img,
              Print (TileSaved 1 ''tiles/p_tile_1.png'')], 2)
        \<and> shape3 out_img = (2, 1, 4)
        \<and> at3 out_img 0 0 0 = 3 \<and> at3 out_img 0 0 1 = 2
        \<and> at3 out_img 0 0 2 = 1 \<and> at3 out_img 0 0 3 = 4)"
proof -
  let ?src = "example_raster 3 2 4 (1 / 2)"
  have c: "count ?src = 4"
    by (simp add: example_raster_def)
  have z: "\<forall>r<2. \<forall>c<2. at3 (src_read ?src (Window 0 0 2 2)) 3 r c = 0"
    by (simp add: example_raster_def)
  then have z': "list_all (\<lambda>r. list_all (\<lambda>c.
      at3 (src_read ?src (Window 0 0 2 2)) 3 r c = 0) [0..<2]) [0..<2]"
    by (simp only: list_all_upt)
  have nz: "at3 (src_read ?src (Window 2 0 1 2)) 3 0 0 \<noteq> 0"
    by (simp add: example_raster_def)
  then have nz': "\<not> (\<forall>r<2. \<forall>c<1. at3 (src_read ?src (Window 2 0 1 2)) 3 r c = 0)"
    by (intro notI) simp
  note skip = four_band_tile [OF c example_window_00 [symmetric] refl example_shape_00 refl,
      of "''tiles''" "''p''" 0]
  note save = four_band_tile [OF c example_window_01 [symmetric] refl example_shape_01 refl,
      of "''tiles''" "''p''" 1]
  from skip z have s: "process_tile ?src 2 ''tiles'' ''p'' 0 0 0
      = ([ReadWindow (Window 0 0 2 2), Print (TileEmptyAlpha 0)], 1)"
    by simp
  from save nz' obtain out_img where o: "process_tile ?src 2 ''tiles'' ''p'' 0 1 1
      = ([ReadWindow (Window 2 0 1 2), ImWrite (os_path_join ''tiles'' (tile_filename ''p'' 1)) out_img,
          Print (TileSaved 1 (os_path_join ''tiles'' (tile_filename ''p'' 1)))], 1 + 1)"
    and sh: "shape3 out_img = (2, 1, 4)"
    and it: "\<forall>r c. at3 out_img r c 0 = at3 (src_read ?src (Window 2 0 1 2)) 2 r c
        \<and> at3 out_img r c 1 = at3 (src_read ?src (Window 2 0 1 2)) 1 r c
        \<and> at3 out_img r c 2 = at3 (src_read ?src (Window 2 0 1 2)) 0 r c
        \<and> at3 out_img r c 3 = at3 (src_read ?src (Window 2 0 1 2)) 3 r c"
    by blast
  from o have o': "process_tile ?src 2 ''tiles'' ''p'' 0 1 1
      = ([ReadWindow (Window 2 0 1 2), ImWrite ''tiles/p_tile_1.png'' out_img,
          Print (TileSaved 1 ''tiles/p_tile_1.png'')], 2)"
    by (simp only: example_path) simp
  from it have v: "at3 out_img 0 0 0 = 3" "at3 out_img 0 0 1 = 2"
    "at3 out_img 0 0 2 = 1" "at3 out_img 0 0 3 = 4"
    by (simp_all add: example_raster_def)
  from o' sh v have "\<exists>out_img. process_tile ?src 2 ''tiles'' ''p'' 0 1 1
        = ([ReadWindow (Window 2 0 1 2), ImWrite ''tiles/p_tile_1.png'' out_img,
            Print (TileSaved 1 ''tiles/p_tile_1.png'')], 2)
      \<and> shape3 out_img = (2, 1, 4)
      \<and> at3 out_img 0 0 0 = 3 \<and> at3 out_img 0 0 1 = 2
      \<and> at3 out_img 0 0 2 = 1 \<and> at3 out_img 0 0 3 = 4"
    by (intro exI [of _ out_img] conjI)
  with c example_shape_00 [of 4 "1 / 2"] z' s example_shape_01 [of 4 "1 / 2"] nz show ?thesis
    by (intro conjI)
qed

text \<open>
  C3.  For a tile of a raster of 3 bands, read as \<open>tile_data\<close> of shape \<open>(b, h, w)\<close>: if
  every sample of the tile is zero, the tile is read and reported empty and no image is
  written; otherwise an image of 3 channels is written under the tile's file name, whose
  channel \<open>k\<close> is band \<open>k\<close> of the tile, every sample unchanged.
\<close>

theorem three_band_tile:
  assumes "count src = 3"
    and "window = tile_window (int (width src)) (int (height src)) tp i j"
    and "tile_data = src_read src window"
    and "shape3 tile_data = (b, h, w)"
    and "output_path = os_path_join sp (tile_filename pn n)"
  shows "((\<forall>k<3. \<forall>r<h. \<forall>c<w. at3 tile_data k r c = 0) \<longrightarrow>
            process_tile src tp sp pn i j n = ([ReadWindow window, Print (TileEmpty n)], n + 1))
     \<and> (\<not> (\<forall>k<3. \<forall>r<h. \<forall>c<w. at3 tile_data k r c = 0) \<longrightarrow>
          (\<exists>out_img. process_tile src tp sp pn i j n
              = ([ReadWindow window, ImWrite output_path out_img,
                  Print (TileSaved n output_path)], n + 1)
            \<and> shape3 out_img = (h, w, 3)
            \<and> (\<forall>r c k. at3 out_img r c k = at3 tile_data k r c)))"
proof -
  let ?out = "np_transpose_120 tile_data"
  let ?zero = "\<forall>k<3. \<forall>r<h. \<forall>c<w. at3 tile_data k r c = 0"
  from assms(4) have "b = count src"
    unfolding assms(3) by (rule src_read_bands)
  with assms(1) have "b = 3"
    by (simp only:)
  with assms(4) have sh: "shape3 tile_data = (3, h, w)"
    by (simp only:)
  note none = np_none_iff [OF sh]
  have skip: "process_tile src tp sp pn i j n = ([ReadWindow window, Print (TileEmpty n)], n + 1)"
    if "\<not> np_any ?out"
    using assms(1) that by (simp add: process_tile_def Let_def flip: assms(2,3))
  have save: "process_tile src tp sp pn i j n
      = ([ReadWindow window, ImWrite output_path ?out, Print (TileSaved n output_path)], n + 1)"
    if "np_any ?out"
    using assms(1) that by (simp add: process_tile_def Let_def assms(5) flip: assms(2,3))
  have shape: "shape3 ?out = (h, w, 3)"
    using sh by (simp add: np_transpose_120_def)
  have items: "\<forall>r c k. at3 ?out r c k = at3 tile_data k r c"
    using sh by (simp add: np_transpose_120_def)
  show ?thesis
  proof (intro conjI impI)
    assume ?zero
    then have "\<not> np_any ?out"
      by (rule none [THEN iffD2])
    then show "process_tile src tp sp pn i j n = ([ReadWindow window, Print (TileEmpty n)], n + 1)"
      by (rule skip)
  next
    assume nz: "\<not> ?zero"
    have "np_any ?out"
    proof (rule ccontr)
      assume "\<not> np_any ?out"
      then have ?zero
        by (rule none [THEN iffD1])
      with nz show False ..
    qed
    then have "process_tile src tp sp pn i j n
        = ([ReadWindow window, ImWrite output_path ?out, Print (TileSaved n output_path)], n + 1)"
      by (rule save)
    with shape items show "\<exists>out_img. process_tile src tp sp pn i j n
        = ([ReadWindow window, ImWrite output_path out_img, Print (TileSaved n output_path)], n + 1)
      \<and> shape3 out_img = (h, w, 3)
      \<and> (\<forall>r c k. at3 out_img r c k = at3 tile_data k r c)"
      by (intro exI [of _ ?out] conjI)
  qed
qed

theorem three_band_tile_witness:
  "count (example_raster 3 2 3 (1 / 2)) = 3
   \<and> shape3 (src_read (example_raster 3 2 3 (1 / 2)) (Window 0 0 2 2)) = (3, 2, 2)
   \<and> list_all (\<lambda>k. list_all (\<lambda>r. list_all (\<lambda>c.
          at3 (src_read (example_raster 3 2 3 (1 / 2)) (Window 0 0 2 2)) k r c = 0)
            [0..<2]) [0..<2]) [0..<3]
   \<and> process_tile (example_raster 3 2 3 (1 / 2)) 2 ''tiles'' ''p'' 0 0 0
       = ([ReadWindow (Window 0 0 2 2), Print (TileEmpty 0)], 1)
   \<and> shape3 (src_read (example_raster 3 2 3 (1 / 2)) (Window 2 0 1 2)) = (3, 2, 1)
   \<and> at3 (src_read (example_raster 3 2 3 (1 / 2)) (Window 2 0 1 2)) 0 0 0 \<noteq> 0
   \<and> (\<exists>out_img. process_tile (example_raster 3 2 3 (1 / 2)) 2 ''tiles'' ''p'' 0 1 1
          = ([ReadWindow (Window 2 0 1 2), ImWrite ''tiles/p_tile_1.png'' out_img,
              Print (TileSaved 1 ''tiles/p_tile_1.png'')], 2)
        \<and> shape3 out_img = (2, 1, 3)
        \<and> at3 out_img 0 0 0 = 1 \<and> at3 out_img 0 0 1 = 2 \<and> at3 out_img 0 0 2 = 3)"
proof -
  let ?src = "example_raster 3 2 3 (1 / 2)"
  have c: "count ?src = 3"
    by (simp add: example_raster_def)
  have z: "\<forall>k<3. \<forall>r<2. \<forall>c<2. at3 (src_read ?src (Window 0 0 2 2)) k r c = 0"
    by (simp add: example_raster_def)
  then have z': "list_all (\<lambda>k. list_all (\<lambda>r. list_all (\<lambda>c.
      at3 (src_read ?src (Window 0 0 2 2)) k r c = 0) [0..<2]) [0..<2]) [0..<3]"
    by (simp only: list_all_upt)
  have nz: "at3 (src_read ?src (Window 2 0 1 2)) 0 0 0 \<noteq> 0"
    by (simp add: example_raster_def)
  have nz': "\<not> (\<forall>k<3. \<forall>r<2. \<forall>c<1. at3 (src_read ?src (Window 2 0 1 2)) k r c = 0)"
  proof
    assume "\<forall>k<3. \<forall>r<2. \<forall>c<1. at3 (src_read ?src (Window 2 0 1 2)) k r c = 0"
    then have "at3 (src_read ?src (Window 2 0 1 2)) 0 0 0 = 0"
      by simp
    with nz show False ..
  qed
  note skip = three_band_tile [OF c example_window_00 [symmetric] refl example_shape_00 refl,
      of "''tiles''" "''p''" 0]
  note save = three_band_tile [OF c example_window_01 [symmetric] refl example_shape_01 refl,
      of "''tiles''" "''p''" 1]
  from skip z have s: "process_tile ?src 2 ''tiles'' ''p'' 0 0 0
      = ([ReadWindow (Window 0 0 2 2), Print (TileEmpty 0)], 1)"
    by simp
  from save nz' obtain out_img where o: "process_tile ?src 2 ''tiles'' ''p'' 0 1 1
      = ([ReadWindow (Window 2 0 1 2), ImWrite (os_path_join ''tiles'' (tile_filename ''p'' 1)) out_img,
          Print (TileSaved 1 (os_path_join ''tiles'' (tile_filename ''p'' 1)))], 1 + 1)"
    and sh: "shape3 out_img = (2, 1, 3)"
    and it: "\<forall>r c k. at3 out_img r c k = at3 (src_read ?src (Window 2 0 1 2)) k r c"
    by blast
  from o have o': "process_tile ?src 2 ''tiles'' ''p'' 0 1 1
      = ([ReadWindow (Window 2 0 1 2), ImWrite ''tiles/p_tile_1.png'' out_img,
          Print (TileSaved 1 ''tiles/p_tile_1.png'')], 2)"
    by (simp only: example_path) simp
  from it have v: "at3 out_img 0 0 0 = 1" "at3 out_img 0 0 1 = 2" "at3 out_img 0 0 2 = 3"
    by (simp_all add: example_raster_def)
  from o' sh v have "\<exists>out_img. process_tile ?src 2 ''tiles'' ''p'' 0 1 1
        = ([ReadWindow (Window 2 0 1 2), ImWrite ''tiles/p_tile_1.png'' out_img,
            Print (TileSaved 1 ''tiles/p_tile_1.png'')], 2)
      \<and> shape3 out_img = (2, 1, 3)
      \<and> at3 out_img 0 0 0 = 1 \<and> at3 out_img 0 0 1 = 2 \<and> at3 out_img 0 0 2 = 3"
    by (intro exI [of _ out_img] conjI)
  with c example_shape_00 [of 3 "1 / 2"] z' s example_shape_01 [of 3 "1 / 2"] nz show ?thesis
    by (intro conjI)
qed

text \<open>
  C4.  On a run that gets to the grid (the file exists, the output directory exists or
  is created, both resolutions are non-zero and the tile size in pixels is at least 1),
  the run ends without an exception; the tiles
  are read in row-major order, the \<open>k\<close>-th window read being that of row
  \<open>k div w_tiles\<close> and column \<open>k mod w_tiles\<close>; every tile, written or skipped, moves
  the tile number on by exactly one, the notices carrying the numbers \<open>0, 1, 2, \<dots>\<close> in
  this order; and the final tile number is \<open>w_tiles * h_tiles\<close>.
\<close>

theorem row_major_visit:
  assumes "isfile w image_path"
    and "src = raster_at w image_path"
    and "\<not> is_zero (py_abs (affine_getitem (transform src) 0))"
    and "\<not> is_zero (py_abs (affine_getitem (transform src) 4))"
    and "tile_size_pixels t (py_abs (affine_getitem (transform src) 0)) = Inr tp"
    and "1 \<le> tp"
    and "w_tiles = (int (width src) + tp - 1) div tp"
    and "h_tiles = (int (height src) + tp - 1) div tp"
    and "n_tiles = nat h_tiles * nat w_tiles"
    and "run = split_image w image_path t sp pn"
    and dir: "path_exists w sp \<or> makedirs w sp = None"
  shows "int n_tiles = w_tiles * h_tiles
    \<and> snd run = Inr n_tiles
    \<and> length (reads (fst run)) = n_tiles
    \<and> (\<forall>k<n_tiles. reads (fst run) ! k
          = tile_window (int (width src)) (int (height src)) tp (int k div w_tiles) (int k mod w_tiles))
    \<and> tile_numbers (fst run) = [0..<n_tiles]
    \<and> (\<forall>i j n. snd (process_tile src tp sp pn i j n) = n + 1)"
proof -
  note f = full_run [OF assms(1-8) assms(10) dir]
  let ?f = "tile_window (int (width src)) (int (height src)) tp"
  have len: "length (reads (fst run)) = n_tiles"
    by (simp add: f(5) assms(9) length_concat comp_def py_range_length sum_list_triv)
  have nth: "reads (fst run) ! k = ?f (int k div w_tiles) (int k mod w_tiles)" if "k < n_tiles" for k
    using that unfolding f(5) assms(9) by (intro grid_reads_nth f(1))
  from f(3,4,6) len nth show ?thesis
    by (simp add: assms(9) process_tile_next)
qed

theorem row_major_visit_witness:
  "isfile (example_world 3 3 4 (1 / 2)) ''ortho.tif''
   \<and> \<not> is_zero (py_abs (affine_getitem (transform (raster_at (example_world 3 3 4 (1 / 2)) ''ortho.tif'')) 0))
   \<and> \<not> is_zero (py_abs (affine_getitem (transform (raster_at (example_world 3 3 4 (1 / 2)) ''ortho.tif'')) 4))
   \<and> tile_size_pixels (Fin 1)
        (py_abs (affine_getitem (transform (raster_at (example_world 3 3 4 (1 / 2)) ''ortho.tif'')) 0))
       = Inr 2
   \<and> (1::int) \<le> 2
   \<and> path_exists (example_world 3 3 4 (1 / 2)) ''tiles''
   \<and> snd (split_image (example_world 3 3 4 (1 / 2)) ''ortho.tif'' (Fin 1) ''tiles'' ''p'') = Inr 4
   \<and> reads (fst (split_image (example_world 3 3 4 (1 / 2)) ''ortho.tif'' (Fin 1) ''tiles'' ''p'')) ! 0
       = Window 0 0 2 2
   \<and> reads (fst (split_image (example_world 3 3 4 (1 / 2)) ''ortho.tif'' (Fin 1) ''tiles'' ''p'')) ! 1
       = Window 2 0 1 2
   \<and> reads (fst (split_image (example_world 3 3 4 (1 / 2)) ''ortho.tif'' (Fin 1) ''tiles'' ''p'')) ! 2
       = Window 0 2 2 1
   \<and> reads (fst (split_image (example_world 3 3 4 (1 / 2)) ''ortho.tif'' (Fin 1) ''tiles'' ''p'')) ! 3
       = Window 2 2 1 1
   \<and> tile_numbers (fst (split_image (example_world 3 3 4 (1 / 2)) ''ortho.tif'' (Fin 1) ''tiles'' ''p''))
       = [0, 1, 2, 3]"
proof -
  let ?w = "example_world 3 3 4 (1 / 2)"
  have p: "isfile ?w ''ortho.tif''"
    by (simp add: example_world_def)
  have a: "affine_getitem (transform (raster_at ?w ''ortho.tif'')) 0 = Fin (1 / 2)"
    and e: "affine_getitem (transform (raster_at ?w ''ortho.tif'')) 4 = Fin (- (1 / 2))"
    by (simp_all add: example_world_def example_raster_def affine_getitem_def)
  have nz: "\<not> is_zero (py_abs (affine_getitem (transform (raster_at ?w ''ortho.tif'')) 0))"
    "\<not> is_zero (py_abs (affine_getitem (transform (raster_at ?w ''ortho.tif'')) 4))"
    by (simp_all add: a e)
  have ts: "tile_size_pixels (Fin 1) (py_abs (affine_getitem (transform (raster_at ?w ''ortho.tif'')) 0))
      = Inr 2"
    by (simp only: a tile_size_example_2)
  have tp: "(1::int) \<le> 2"
    by simp
  have wh: "width (raster_at ?w ''ortho.tif'') = 3" "height (raster_at ?w ''ortho.tif'') = 3"
    by (simp_all add: example_world_def example_raster_def)
  have d: "path_exists ?w ''tiles''"
    by (rule example_tiles_exists)
  note r = row_major_visit [where pn = "''p''", OF p refl nz ts tp refl refl refl refl disjI1 [OF d]]
  have n: "nat ((int (width (raster_at ?w ''ortho.tif'')) + 2 - 1) div 2)
      * nat ((int (height (raster_at ?w ''ortho.tif'')) + 2 - 1) div 2) = 4"
    by (simp add: wh)
  from r have "snd (split_image ?w ''ortho.tif'' (Fin 1) ''tiles'' ''p'') = Inr 4"
    and "tile_numbers (fst (split_image ?w ''ortho.tif'' (Fin 1) ''tiles'' ''p'')) = [0..<4]"
    and k: "\<forall>k<4. reads (fst (split_image ?w ''ortho.tif'' (Fin 1) ''tiles'' ''p'')) ! k
          = tile_window 3 3 2 (int k div 2) (int k mod 2)"
    unfolding n by (simp_all add: wh)
  moreover have "[0..<4] = [0, 1, 2, 3::nat]"
    by (simp add: upt_rec)
  moreover from k have "reads (fst (split_image ?w ''ortho.tif'' (Fin 1) ''tiles'' ''p'')) ! 0
      = Window 0 0 2 2"
    and "reads (fst (split_image ?w ''ortho.tif'' (Fin 1) ''tiles'' ''p'')) ! 1 = Window 2 0 1 2"
    and "reads (fst (split_image ?w ''ortho.tif'' (Fin 1) ''tiles'' ''p'')) ! 2 = Window 0 2 2 1"
    and "reads (fst (split_image ?w ''ortho.tif'' (Fin 1) ''tiles'' ''p'')) ! 3 = Window 2 2 1 1"
    by (simp_all add: tile_window_def)
  ultimately show ?thesis
    using p nz ts d by simp
qed

text \<open>
  C5.  In a grid of \<open>w_tiles\<close> by \<open>h_tiles\<close> tiles of nominal size \<open>tp \<ge> 1\<close>, the
  window of the tile in row \<open>i\<close> and column \<open>j\<close> starts at \<open>(j * tp, i * tp)\<close>.  A tile
  that is not in the last column has width exactly \<open>tp\<close>, one that is not in the last row
  has height exactly \<open>tp\<close>; in the last column the width is positive, at most \<open>tp\<close> and
  equal to \<open>W - tp * j\<close>, and likewise for the height in the last row.  Every window
  lies within the image.
\<close>

theorem tile_window_geometry:
  fixes W H tp i j :: int
  assumes "1 \<le> tp"
    and "w_tiles = (W + tp - 1) div tp"
    and "h_tiles = (H + tp - 1) div tp"
    and "0 \<le> i" and "i < h_tiles" and "0 \<le> j" and "j < w_tiles"
    and "tile_window W H tp i j = Window x y wd ht"
  shows "x = j * tp \<and> y = i * tp
    \<and> (j < w_tiles - 1 \<longrightarrow> wd = tp)
    \<and> (i < h_tiles - 1 \<longrightarrow> ht = tp)
    \<and> (j = w_tiles - 1 \<longrightarrow> 0 < wd \<and> wd \<le> tp \<and> wd = W - tp * j)
    \<and> (i = h_tiles - 1 \<longrightarrow> 0 < ht \<and> ht \<le> tp \<and> ht = H - tp * i)
    \<and> 0 < wd \<and> wd \<le> tp \<and> 0 < ht \<and> ht \<le> tp
    \<and> 0 \<le> x \<and> x + wd \<le> W \<and> 0 \<le> y \<and> y + ht \<le> H"
proof -
  have axis: "(k < n - 1 \<longrightarrow> min tp (D - k * tp) = tp)
      \<and> (k = n - 1 \<longrightarrow> min tp (D - k * tp) = D - tp * k)
      \<and> 0 < min tp (D - k * tp) \<and> min tp (D - k * tp) \<le> tp
      \<and> 0 \<le> k * tp \<and> k * tp + min tp (D - k * tp) \<le> D"
    if n: "n = (D + tp - 1) div tp" and k: "0 \<le> k" "k < n" for D n k :: int
  proof -
    define m where "m = min tp (D - k * tp)"
    have lo: "(n - 1) * tp < D" and hi: "D \<le> n * tp"
      unfolding n by (rule num_tiles_bounds [OF assms(1)])+
    have e1: "(n - 1) * tp = n * tp - tp"
      by (simp only: left_diff_distrib mult_1)
    have e2: "(k + 1) * tp = k * tp + tp"
      by (simp only: distrib_right mult_1)
    have tp0: "0 \<le> tp"
      using assms(1) by linarith
    from k(2) have "k \<le> n - 1"
      by linarith
    then have "k * tp \<le> (n - 1) * tp"
      using tp0 by (rule mult_right_mono)
    with lo have pos: "0 < D - k * tp"
      by linarith
    have inner: "m = tp" if "k < n - 1"
    proof -
      from that have "k + 1 \<le> n - 1"
        by linarith
      then have "(k + 1) * tp \<le> (n - 1) * tp"
        using tp0 by (rule mult_right_mono)
      with lo e2 have "tp \<le> D - k * tp"
        by linarith
      then show ?thesis
        unfolding m_def by (rule min_absorb1)
    qed
    have border: "m = D - tp * k" if "k = n - 1"
    proof -
      from hi e1 that have "D - k * tp \<le> tp"
        by simp
      then have "m = D - k * tp"
        unfolding m_def by (rule min_absorb2)
      then show ?thesis
        by (simp only: mult.commute)
    qed
    have m_le: "m \<le> tp" and m_le': "m \<le> D - k * tp"
      unfolding m_def by (rule min.cobounded1, rule min.cobounded2)
    have "0 < tp"
      using assms(1) by linarith
    with pos have "0 < tp \<and> 0 < D - k * tp"
      by (intro conjI)
    then have m_pos: "0 < m"
      unfolding m_def by (simp only: min_less_iff_conj)
    have nn: "0 \<le> k * tp"
      using k(1) tp0 by (rule mult_nonneg_nonneg)
    from m_le' have fit: "k * tp + m \<le> D"
      by linarith
    from inner border m_pos m_le nn fit show ?thesis
      unfolding m_def by (intro conjI impI)
  qed
  from assms(8)
  have "Window (j * tp) (i * tp) (min tp (W - j * tp)) (min tp (H - i * tp)) = Window x y wd ht"
    by (simp only: tile_window_def Let_def)
  then have "j * tp = x \<and> i * tp = y
      \<and> min tp (W - j * tp) = wd \<and> min tp (H - i * tp) = ht"
    by (rule window.inject [THEN iffD1])
  then have xy: "x = j * tp" "y = i * tp"
    and wd: "wd = min tp (W - j * tp)" and ht: "ht = min tp (H - i * tp)"
    by blast+
  note c = axis [OF assms(2) assms(6,7)] and r = axis [OF assms(3) assms(4,5)]
  show ?thesis
    unfolding xy wd ht using c r by blast
qed

theorem tile_window_geometry_witness:
  "(1::int) \<le> 200 \<and> (3::int) = (500 + 200 - 1) div 200 \<and> (0::int) \<le> 1 \<and> (1::int) < 3
   \<and> (0::int) \<le> 2 \<and> (2::int) < 3
   \<and> tile_window 500 500 200 1 2 = Window 400 200 100 200
   \<and> (400::int) = 2 * 200 \<and> (200::int) = 1 * 200
   \<and> (1::int) < 3 - 1 \<and> (200::int) = 200
   \<and> (2::int) = 3 - 1 \<and> (0::int) < 100 \<and> (100::int) \<le> 200 \<and> (100::int) = 500 - 200 * 2
   \<and> (400::int) + 100 \<le> 500 \<and> (200::int) + 200 \<le> 500"
proof -
  have w: "tile_window 500 500 200 1 2 = Window 400 200 100 200"
    by (simp add: tile_window_def)
  have n: "(3::int) = (500 + 200 - 1) div 200"
    by simp
  from tile_window_geometry [OF _ n n _ _ _ _ w] w show ?thesis
    by simp
qed

text \<open>
  C6.  Once the file is found, the output directory exists or is created, and the
  raster is opened: if the absolute value of the
  horizontal or of the vertical scale term is zero, the run ends with the resolution
  error, having opened and closed the raster and nothing more, so no window is read, no
  tile notice printed and no image written; if both are non-zero, the run does not end
  with the resolution error.
\<close>

theorem zero_resolution_aborts:
  assumes "isfile w image_path"
    and "src = raster_at w image_path"
    and "run = split_image w image_path t sp pn"
    and dir: "path_exists w sp \<or> makedirs w sp = None"
  shows "(is_zero (py_abs (affine_getitem (transform src) 0))
          \<or> is_zero (py_abs (affine_getitem (transform src) 4)) \<longrightarrow>
            snd run = Inl ValueError_resolution
            \<and> fst run = Print (Processing image_path t)
                # (if \<not> path_exists w sp then [Print WarnCreatingDir, MakeDirs sp] else [])
                @ [OpenRaster image_path, CloseRaster image_path]
            \<and> opened (fst run) = [image_path]
            \<and> reads (fst run) = [] \<and> tile_numbers (fst run) = [] \<and> writes (fst run) = [])
     \<and> (\<not> is_zero (py_abs (affine_getitem (transform src) 0))
          \<and> \<not> is_zero (py_abs (affine_getitem (transform src) 4)) \<longrightarrow>
            snd run \<noteq> Inl ValueError_resolution)"
proof (intro conjI impI)
  assume "is_zero (py_abs (affine_getitem (transform src) 0))
      \<or> is_zero (py_abs (affine_getitem (transform src) 4))"
  then have z: "tiling (raster_at w image_path) t sp pn = ([], Inl ValueError_resolution)"
    unfolding assms(2) by (rule tiling_zero_resolution)
  show "snd run = Inl ValueError_resolution"
    using assms(1) dir by (simp add: assms(3) split_image_result z)
  show "fst run = Print (Processing image_path t)
      # (if \<not> path_exists w sp then [Print WarnCreatingDir, MakeDirs sp] else [])
      @ [OpenRaster image_path, CloseRaster image_path]"
    using assms(1) dir by (simp add: assms(3) split_image_trace z)
  show "opened (fst run) = [image_path]"
    using assms(1) dir by (simp add: assms(3) split_image_opened)
  show "reads (fst run) = []"
    using assms(1) dir by (simp add: assms(3) split_image_reads z)
  show "tile_numbers (fst run) = []"
    using assms(1) dir by (simp add: assms(3) split_image_tile_numbers z)
  show "writes (fst run) = []"
    using assms(1) dir by (simp add: assms(3) split_image_writes z)
next
  assume nz: "\<not> is_zero (py_abs (affine_getitem (transform src) 0))
      \<and> \<not> is_zero (py_abs (affine_getitem (transform src) 4))"
  show "snd run \<noteq> Inl ValueError_resolution"
  proof
    assume "snd run = Inl ValueError_resolution"
    with assms(1) dir have "snd (tiling src t sp pn) = Inl ValueError_resolution"
      by (simp add: assms(2,3) split_image_result)
    from tiling_error(2) [OF this] nz show False
      by simp
  qed
qed

theorem zero_resolution_aborts_witness:
  "isfile (example_world 3 3 4 0) ''ortho.tif''
   \<and> path_exists (example_world 3 3 4 0) ''tiles''
   \<and> is_zero (py_abs (affine_getitem (transform (raster_at (example_world 3 3 4 0) ''ortho.tif'')) 4))
   \<and> snd (split_image (example_world 3 3 4 0) ''ortho.tif'' (Fin 1) ''tiles'' ''p'')
       = Inl ValueError_resolution
   \<and> fst (split_image (example_world 3 3 4 0) ''ortho.tif'' (Fin 1) ''tiles'' ''p'')
       = [Print (Processing ''ortho.tif'' (Fin 1)), OpenRaster ''ortho.tif'', CloseRaster ''ortho.tif'']
   \<and> writes (fst (split_image (example_world 3 3 4 0) ''ortho.tif'' (Fin 1) ''tiles'' ''p'')) = []
   \<and> isfile (example_world 3 3 4 (1 / 2)) ''ortho.tif''
   \<and> path_exists (example_world 3 3 4 (1 / 2)) ''tiles''
   \<and> \<not> is_zero (py_abs (affine_getitem (transform (raster_at (example_world 3 3 4 (1 / 2)) ''ortho.tif'')) 0))
   \<and> \<not> is_zero (py_abs (affine_getitem (transform (raster_at (example_world 3 3 4 (1 / 2)) ''ortho.tif'')) 4))
   \<and> snd (split_image (example_world 3 3 4 (1 / 2)) ''ortho.tif'' (Fin 1) ''tiles'' ''p'')
       \<noteq> Inl ValueError_resolution"
proof -
  have p0: "isfile (example_world 3 3 4 0) ''ortho.tif''"
    and p1: "isfile (example_world 3 3 4 (1 / 2)) ''ortho.tif''"
    and e: "path_exists (example_world 3 3 4 0) ''tiles''"
    and z: "is_zero (py_abs (affine_getitem (transform (raster_at (example_world 3 3 4 0) ''ortho.tif'')) 4))"
    and nz: "\<not> is_zero (py_abs (affine_getitem (transform (raster_at (example_world 3 3 4 (1 / 2)) ''ortho.tif'')) 0))"
      "\<not> is_zero (py_abs (affine_getitem (transform (raster_at (example_world 3 3 4 (1 / 2)) ''ortho.tif'')) 4))"
    by (simp_all add: example_world_def example_raster_def affine_getitem_def)
  have e1: "path_exists (example_world 3 3 4 (1 / 2)) ''tiles''"
    by (rule example_tiles_exists)
  from zero_resolution_aborts [where t = "Fin 1" and pn = "''p''", OF p0 refl refl disjI1 [OF e]]
    zero_resolution_aborts [where t = "Fin 1" and pn = "''p''", OF p1 refl refl disjI1 [OF e1]]
    p0 p1 z nz e e1
  show ?thesis
    by simp
qed

text \<open>
  C7, as stated, fails in its ``only if'' half: with the input file present and the empty
  path as output directory, \<^verbatim>\<open>os.makedirs\<close> raises \<^verbatim>\<open>FileNotFoundError\<close>, so the
  run ends with that exception although the source path names an existing file.
\<close>

theorem missing_input_file_counterexample:
  "isfile (example_world 3 3 4 (1 / 2)) ''ortho.tif''
   \<and> \<not> path_exists (example_world 3 3 4 (1 / 2)) []
   \<and> makedirs (example_world 3 3 4 (1 / 2)) [] = Some FileNotFoundError
   \<and> split_image (example_world 3 3 4 (1 / 2)) ''ortho.tif'' (Fin 1) [] ''p''
       = ([Print (Processing ''ortho.tif'' (Fin 1)), Print WarnCreatingDir], Inl FileNotFoundError)"
proof -
  let ?w = "example_world 3 3 4 (1 / 2)"
  have p: "isfile ?w ''ortho.tif''" and e: "\<not> path_exists ?w []"
    and m: "makedirs ?w [] = Some FileNotFoundError"
    by (simp_all add: example_world_def)
  from p e m split_image_makedirs_fails [OF p e m, of "Fin 1" "''p''"] show ?thesis
    by (intro conjI)
qed

text \<open>
  C7, amended.  If the source path is not an existing file, the run ends with
  \<^verbatim>\<open>FileNotFoundError\<close>, having only printed its first line: the raster was never
  opened and no window was read.  The run ends with \<^verbatim>\<open>FileNotFoundError\<close> if and
  only if the source path is not an existing file, or the output directory is absent and
  \<^verbatim>\<open>os.makedirs\<close> raises that exception; in both cases the raster was never opened.
\<close>

theorem missing_input_file:
  "(\<not> isfile w image_path \<longrightarrow>
        snd (split_image w image_path t sp pn) = Inl FileNotFoundError
        \<and> fst (split_image w image_path t sp pn) = [Print (Processing image_path t)]
        \<and> opened (fst (split_image w image_path t sp pn)) = []
        \<and> reads (fst (split_image w image_path t sp pn)) = [])
   \<and> (snd (split_image w image_path t sp pn) = Inl FileNotFoundError \<longleftrightarrow>
        \<not> isfile w image_path
        \<or> (\<not> path_exists w sp \<and> makedirs w sp = Some FileNotFoundError))
   \<and> (snd (split_image w image_path t sp pn) = Inl FileNotFoundError \<longrightarrow>
        opened (fst (split_image w image_path t sp pn)) = []
        \<and> reads (fst (split_image w image_path t sp pn)) = [])"
proof (cases "isfile w image_path")
  case False
  then show ?thesis
    by (simp add: split_image_missing)
next
  case True
  show ?thesis
  proof (cases "path_exists w sp \<or> makedirs w sp = None")
    case ok: True
    have "snd (tiling (raster_at w image_path) t sp pn) \<noteq> Inl FileNotFoundError"
      using tiling_error(1) [of "raster_at w image_path" t sp pn FileNotFoundError] by blast
    with True ok have "snd (split_image w image_path t sp pn) \<noteq> Inl FileNotFoundError"
      by (simp add: split_image_result)
    with True ok show ?thesis
      by auto
  next
    case False
    then obtain err where e: "\<not> path_exists w sp" and m: "makedirs w sp = Some err"
      by auto
    from split_image_makedirs_fails [OF True e m, of t pn] True e m show ?thesis
      by simp
  qed
qed

theorem missing_input_file_witness:
  "\<not> isfile (example_world 3 3 4 (1 / 2)) ''missing.tif''
   \<and> snd (split_image (example_world 3 3 4 (1 / 2)) ''missing.tif'' (Fin 1) ''tiles'' ''p'')
       = Inl FileNotFoundError
   \<and> fst (split_image (example_world 3 3 4 (1 / 2)) ''missing.tif'' (Fin 1) ''tiles'' ''p'')
       = [Print (Processing ''missing.tif'' (Fin 1))]
   \<and> opened (fst (split_image (example_world 3 3 4 (1 / 2)) ''missing.tif'' (Fin 1) ''tiles'' ''p''))
       = []
   \<and> reads (fst (split_image (example_world 3 3 4 (1 / 2)) ''missing.tif'' (Fin 1) ''tiles'' ''p''))
       = []
   \<and> isfile (example_world 3 3 4 (1 / 2)) ''ortho.tif''
   \<and> path_exists (example_world 3 3 4 (1 / 2)) ''tiles''
   \<and> snd (split_image (example_world 3 3 4 (1 / 2)) ''ortho.tif'' (Fin 1) ''tiles'' ''p'')
       \<noteq> Inl FileNotFoundError"
proof -
  let ?w = "example_world 3 3 4 (1 / 2)"
  have m: "\<not> isfile ?w ''missing.tif''" and p: "isfile ?w ''ortho.tif''"
    and d: "path_exists ?w ''tiles''"
    by (simp_all add: example_world_def)
  from missing_input_file [of ?w "''missing.tif''" "Fin 1" "''tiles''" "''p''"]
    missing_input_file [of ?w "''ortho.tif''" "Fin 1" "''tiles''" "''p''"]
    m p d
  show ?thesis
    by blast
qed

text \<open>
  C8.  When the band count is neither 3 nor 4, no image is ever written; every tile is
  read, reported as unsupported and moves the tile number on by one; and a run that gets
  to the grid (the file exists, the output directory exists or is created, both
  resolutions are non-zero and the tile size in pixels is at least 1) ends without an
  exception, after \<open>w_tiles * h_tiles\<close> tiles.
\<close>

theorem unsupported_band_count:
  assumes "count src \<noteq> 3" and "count src \<noteq> 4"
    and "src = raster_at w image_path"
    and "run = split_image w image_path t sp pn"
  shows "writes (fst run) = []
    \<and> (\<forall>tp i j n. process_tile src tp sp pn i j n
          = ([ReadWindow (tile_window (int (width src)) (int (height src)) tp i j),
              Print (TileUnsupported n (count src))], n + 1))
    \<and> (\<forall>tp. isfile w image_path
          \<and> (path_exists w sp \<or> makedirs w sp = None)
          \<and> \<not> is_zero (py_abs (affine_getitem (transform src) 0))
          \<and> \<not> is_zero (py_abs (affine_getitem (transform src) 4))
          \<and> tile_size_pixels t (py_abs (affine_getitem (transform src) 0)) = Inr tp
          \<and> 1 \<le> tp \<longrightarrow>
            snd run = Inr (nat ((int (height src) + tp - 1) div tp)
                           * nat ((int (width src) + tp - 1) div tp))
            \<and> tile_numbers (fst run)
                = [0..<nat ((int (height src) + tp - 1) div tp)
                       * nat ((int (width src) + tp - 1) div tp)])"
proof (intro conjI allI impI)
  show "writes (fst run) = []"
  proof (cases "isfile w image_path")
    case True
    show ?thesis
    proof (cases "path_exists w sp \<or> makedirs w sp = None")
      case ok: True
      with True assms(1,2) show ?thesis
        by (simp add: assms(3,4) split_image_writes tiling_unsupported)
    next
      case False
      then obtain err where e: "\<not> path_exists w sp" and m: "makedirs w sp = Some err"
        by auto
      from split_image_makedirs_fails [OF True e m, of t pn] show ?thesis
        by (simp add: assms(4))
    qed
  next
    case False
    then show ?thesis
      by (simp add: assms(4) split_image_missing)
  qed
next
  fix tp i j n
  from assms(1,2) show "process_tile src tp sp pn i j n
      = ([ReadWindow (tile_window (int (width src)) (int (height src)) tp i j),
          Print (TileUnsupported n (count src))], n + 1)"
    by (simp add: process_tile_def Let_def)
next
  fix tp
  assume a: "isfile w image_path
      \<and> (path_exists w sp \<or> makedirs w sp = None)
      \<and> \<not> is_zero (py_abs (affine_getitem (transform src) 0))
      \<and> \<not> is_zero (py_abs (affine_getitem (transform src) 4))
      \<and> tile_size_pixels t (py_abs (affine_getitem (transform src) 0)) = Inr tp
      \<and> 1 \<le> tp"
  then have f: "isfile w image_path"
    "\<not> is_zero (py_abs (affine_getitem (transform src) 0))"
    "\<not> is_zero (py_abs (affine_getitem (transform src) 4))"
    "tile_size_pixels t (py_abs (affine_getitem (transform src) 0)) = Inr tp"
    "1 \<le> tp"
    by blast+
  from a have dir: "path_exists w sp \<or> makedirs w sp = None"
    by (elim conjE)
  note r = full_run [OF f(1) assms(3) f(2-5) refl refl assms(4) dir]
  from r(4) show "snd run = Inr (nat ((int (height src) + tp - 1) div tp)
      * nat ((int (width src) + tp - 1) div tp))" .
  from r(6) show "tile_numbers (fst run)
      = [0..<nat ((int (height src) + tp - 1) div tp) * nat ((int (width src) + tp - 1) div tp)]" .
qed

theorem unsupported_band_count_witness:
  "count (raster_at (example_world 3 3 5 (1 / 2)) ''ortho.tif'') \<noteq> 3
   \<and> count (raster_at (example_world 3 3 5 (1 / 2)) ''ortho.tif'') \<noteq> 4
   \<and> isfile (example_world 3 3 5 (1 / 2)) ''ortho.tif''
   \<and> path_exists (example_world 3 3 5 (1 / 2)) ''tiles''
   \<and> \<not> is_zero (py_abs (affine_getitem (transform (raster_at (example_world 3 3 5 (1 / 2)) ''ortho.tif'')) 0))
   \<and> \<not> is_zero (py_abs (affine_getitem (transform (raster_at (example_world 3 3 5 (1 / 2)) ''ortho.tif'')) 4))
   \<and> tile_size_pixels (Fin 1)
        (py_abs (affine_getitem (transform (raster_at (example_world 3 3 5 (1 / 2)) ''ortho.tif'')) 0))
       = Inr 2
   \<and> (1::int) \<le> 2
   \<and> writes (fst (split_image (example_world 3 3 5 (1 / 2)) ''ortho.tif'' (Fin 1) ''tiles'' ''p'')) = []
   \<and> process_tile (raster_at (example_world 3 3 5 (1 / 2)) ''ortho.tif'') 2 ''tiles'' ''p'' 0 1 1
       = ([ReadWindow (Window 2 0 1 2), Print (TileUnsupported 1 5)], 2)
   \<and> snd (split_image (example_world 3 3 5 (1 / 2)) ''ortho.tif'' (Fin 1) ''tiles'' ''p'') = Inr 4
   \<and> tile_numbers (fst (split_image (example_world 3 3 5 (1 / 2)) ''ortho.tif'' (Fin 1) ''tiles'' ''p''))
       = [0, 1, 2, 3]"
proof -
  let ?w = "example_world 3 3 5 (1 / 2)"
  let ?src = "raster_at ?w ''ortho.tif''"
  have c: "count ?src \<noteq> 3" "count ?src \<noteq> 4" and c5: "count ?src = 5"
    and p: "isfile ?w ''ortho.tif''"
    and wh: "width ?src = 3" "height ?src = 3"
    by (simp_all add: example_world_def example_raster_def)
  have a: "affine_getitem (transform ?src) 0 = Fin (1 / 2)"
    and e: "affine_getitem (transform ?src) 4 = Fin (- (1 / 2))"
    by (simp_all add: example_world_def example_raster_def affine_getitem_def)
  have nz: "\<not> is_zero (py_abs (affine_getitem (transform ?src) 0))"
    "\<not> is_zero (py_abs (affine_getitem (transform ?src) 4))"
    by (simp_all add: a e)
  have ts: "tile_size_pixels (Fin 1) (py_abs (affine_getitem (transform ?src) 0)) = Inr 2"
    by (simp only: a tile_size_example_2)
  have tp: "(1::int) \<le> 2"
    by simp
  have d: "path_exists ?w ''tiles''"
    by (rule example_tiles_exists)
  note u = unsupported_band_count [OF c refl refl, of "Fin 1" "''tiles''" "''p''"]
  from u have w: "writes (fst (split_image ?w ''ortho.tif'' (Fin 1) ''tiles'' ''p'')) = []"
    by blast
  from u have "process_tile ?src 2 ''tiles'' ''p'' 0 1 1
      = ([ReadWindow (tile_window (int (width ?src)) (int (height ?src)) 2 0 1),
          Print (TileUnsupported 1 (count ?src))], 1 + 1)"
    by blast
  then have t: "process_tile ?src 2 ''tiles'' ''p'' 0 1 1
      = ([ReadWindow (Window 2 0 1 2), Print (TileUnsupported 1 5)], 2)"
    by (simp add: wh c5 tile_window_def)
  from u p d nz ts tp
  have "snd (split_image ?w ''ortho.tif'' (Fin 1) ''tiles'' ''p'')
      = Inr (nat ((int (height ?src) + 2 - 1) div 2) * nat ((int (width ?src) + 2 - 1) div 2))
    \<and> tile_numbers (fst (split_image ?w ''ortho.tif'' (Fin 1) ''tiles'' ''p''))
      = [0..<nat ((int (height ?src) + 2 - 1) div 2) * nat ((int (width ?src) + 2 - 1) div 2)]"
    by blast
  then have s: "snd (split_image ?w ''ortho.tif'' (Fin 1) ''tiles'' ''p'') = Inr 4"
    and n: "tile_numbers (fst (split_image ?w ''ortho.tif'' (Fin 1) ''tiles'' ''p'')) = [0, 1, 2, 3]"
    by (simp_all add: wh upt_rec)
  from c p d nz ts tp w t s n show ?thesis
    by (intro conjI)
qed

text \<open>
  C9, as stated, fails: the tile size \<open>2 powi (- 1074)\<close>, the least positive float, and
  the pixel width \<open>8\<close> are positive floats, yet their quotient rounds to zero, so the
  tile size in pixels is \<open>0\<close> and the ceiling division that follows raises
  \<^verbatim>\<open>ZeroDivisionError\<close>.
\<close>

theorem tile_px_underflow_counterexample:
  "(0::rat) < 2 powi (- 1074) \<and> (0::rat) < 8
   \<and> round_double (2 powi (- 1074)) = Fin (2 powi (- 1074)) \<and> round_double 8 = Fin 8
   \<and> tile_size_pixels (Fin (2 powi (- 1074))) (py_abs (Fin 8)) = Inr 0
   \<and> num_tiles 500 0 = Inl ZeroDivisionError"
proof -
  have "tile_size_pixels (Fin (2 powi (- 1074))) (py_abs (Fin 8)) = Inr 0"
    by (rule tile_size_pixels_underflow) simp_all
  moreover have "(0::rat) < 2 powi (- 1074)" and "(0::rat) < 8"
    by simp_all
  moreover note round_double_least round_double_8 num_tiles_zero [of 500]
  ultimately show ?thesis
    by (intro conjI)
qed

text \<open>
  C9, amended.  For every non-zero finite scale term \<open>a\<close> and every positive finite tile
  size \<open>t\<close> whose exact quotient \<open>t / \<bar>a\<bar>\<close> is at least \<open>2 powi (- 1074)\<close> and below
  \<open>2 powi 1023\<close>, also when \<open>t\<close> is smaller than the pixel width \<open>\<bar>a\<bar>\<close>, the tile size in
  pixels is at least 1, and the two ceiling divisions that follow do not divide by zero.
\<close>

theorem tile_px_at_least_one:
  assumes "a \<noteq> 0" and "0 < t"
    and "2 powi (- 1074) \<le> t / \<bar>a\<bar>" and "t / \<bar>a\<bar> < 2 powi 1023"
  shows "\<exists>tp. tile_size_pixels (Fin t) (py_abs (Fin a)) = Inr tp \<and> 1 \<le> tp
    \<and> num_tiles W tp = Inr ((W + tp - 1) div tp)
    \<and> num_tiles H tp = Inr ((H + tp - 1) div tp)"
proof -
  from assms(1) have "0 < \<bar>a\<bar>"
    by simp
  from tile_size_pixels_normal [OF assms(2) this assms(3,4)]
  obtain q :: rat
    where "tile_size_pixels (Fin t) (py_abs (Fin \<bar>a\<bar>)) = Inr \<lceil>q\<rceil>" and q1: "1 \<le> \<lceil>q\<rceil>"
    by blast
  then have q: "tile_size_pixels (Fin t) (py_abs (Fin a)) = Inr \<lceil>q\<rceil>"
    by simp
  from q1 have "\<lceil>q\<rceil> \<noteq> 0"
    by linarith
  then have "num_tiles W \<lceil>q\<rceil> = Inr ((W + \<lceil>q\<rceil> - 1) div \<lceil>q\<rceil>)"
    and "num_tiles H \<lceil>q\<rceil> = Inr ((H + \<lceil>q\<rceil> - 1) div \<lceil>q\<rceil>)"
    by (simp_all add: num_tiles_nonzero)
  with q q1 show ?thesis
    by blast
qed


theorem tile_px_at_least_one_witness:
  "(1 / 2 :: rat) \<noteq> 0 \<and> (0::rat) < 1 / 4
   \<and> 2 powi (- 1074) \<le> (1 / 4 :: rat) / \<bar>1 / 2\<bar> \<and> (1 / 4 :: rat) / \<bar>1 / 2\<bar> < 2 powi 1023
   \<and> (\<exists>tp. tile_size_pixels (Fin (1 / 4)) (py_abs (Fin (1 / 2))) = Inr tp \<and> 1 \<le> tp
        \<and> num_tiles 500 tp = Inr ((500 + tp - 1) div tp)
        \<and> num_tiles 500 tp = Inr ((500 + tp - 1) div tp))"
  using tile_px_at_least_one [of "1 / 2" "1 / 4" 500 500]
  by simp

text \<open>
  C10.  When the input file does not exist, the run ends with \<^verbatim>\<open>FileNotFoundError\<close>
  without having created any directory, opened the raster or written any image, whether
  or not the output directory exists.  The zero-resolution failure is different: when
  the file exists and the output directory, being absent, is created, the directory is
  there before the run ends with the resolution error.
\<close>

theorem missing_input_no_side_effect:
  "(\<not> isfile w image_path \<longrightarrow>
      snd (split_image w image_path t sp pn) = Inl FileNotFoundError
      \<and> made_dirs (fst (split_image w image_path t sp pn)) = []
      \<and> opened (fst (split_image w image_path t sp pn)) = []
      \<and> writes (fst (split_image w image_path t sp pn)) = [])
   \<and> (isfile w image_path \<and> \<not> path_exists w sp \<and> makedirs w sp = None
        \<and> (is_zero (py_abs (affine_getitem (transform (raster_at w image_path)) 0))
           \<or> is_zero (py_abs (affine_getitem (transform (raster_at w image_path)) 4))) \<longrightarrow>
      snd (split_image w image_path t sp pn) = Inl ValueError_resolution
      \<and> made_dirs (fst (split_image w image_path t sp pn)) = [sp])"
proof (intro conjI impI)
  assume "\<not> isfile w image_path"
  then have r: "split_image w image_path t sp pn
      = ([Print (Processing image_path t)], Inl FileNotFoundError)"
    by (rule split_image_missing)
  show "snd (split_image w image_path t sp pn) = Inl FileNotFoundError"
    and "made_dirs (fst (split_image w image_path t sp pn)) = []"
    and "opened (fst (split_image w image_path t sp pn)) = []"
    and "writes (fst (split_image w image_path t sp pn)) = []"
    by (simp_all add: r)
next
  assume a: "isfile w image_path \<and> \<not> path_exists w sp \<and> makedirs w sp = None
      \<and> (is_zero (py_abs (affine_getitem (transform (raster_at w image_path)) 0))
         \<or> is_zero (py_abs (affine_getitem (transform (raster_at w image_path)) 4)))"
  then have z: "tiling (raster_at w image_path) t sp pn = ([], Inl ValueError_resolution)"
    by (intro tiling_zero_resolution) blast
  from a show "snd (split_image w image_path t sp pn) = Inl ValueError_resolution"
    by (simp add: split_image_result z)
  from a show "made_dirs (fst (split_image w image_path t sp pn)) = [sp]"
    by (simp add: split_image_made_dirs)
qed

theorem missing_input_no_side_effect_witness:
  "\<not> isfile (example_world 3 3 4 0) ''missing.tif''
   \<and> \<not> path_exists (example_world 3 3 4 0) ''newdir''
   \<and> snd (split_image (example_world 3 3 4 0) ''missing.tif'' (Fin 1) ''newdir'' ''p'')
       = Inl FileNotFoundError
   \<and> made_dirs (fst (split_image (example_world 3 3 4 0) ''missing.tif'' (Fin 1) ''newdir'' ''p''))
       = []
   \<and> isfile (example_world 3 3 4 0) ''ortho.tif''
   \<and> makedirs (example_world 3 3 4 0) ''newdir'' = None
   \<and> is_zero (py_abs (affine_getitem (transform (raster_at (example_world 3 3 4 0) ''ortho.tif'')) 0))
   \<and> snd (split_image (example_world 3 3 4 0) ''ortho.tif'' (Fin 1) ''newdir'' ''p'')
       = Inl ValueError_resolution
   \<and> made_dirs (fst (split_image (example_world 3 3 4 0) ''ortho.tif'' (Fin 1) ''newdir'' ''p''))
       = [''newdir'']"
proof -
  have m: "\<not> isfile (example_world 3 3 4 0) ''missing.tif''"
    and p: "isfile (example_world 3 3 4 0) ''ortho.tif''"
    and d: "\<not> path_exists (example_world 3 3 4 0) ''newdir''"
    and c: "makedirs (example_world 3 3 4 0) ''newdir'' = None"
    and z: "is_zero (py_abs (affine_getitem (transform (raster_at (example_world 3 3 4 0) ''ortho.tif'')) 0))"
    by (simp_all add: example_world_def example_raster_def affine_getitem_def)
  from missing_input_no_side_effect
      [of "example_world 3 3 4 0" "''missing.tif''" "Fin 1" "''newdir''" "''p''"]
    missing_input_no_side_effect
      [of "example_world 3 3 4 0" "''ortho.tif''" "Fin 1" "''newdir''" "''p''"]
    m p d c z
  show ?thesis
    by blast
qed

end
